theory Spec2Isabelle
  imports Main "HOL-Library.Word"
begin

unbundle bit_operations_syntax

section \<open>Machine types of the AVR target\<close>

text \<open>
  uart2.c is written for the ATMEL AVR series (avr-gcc): \<open>uint8_t\<close> has 8 bits,
  \<open>unsigned short\<close>, \<open>uint16_t\<close> and \<open>unsigned int\<close> have 16 bits, \<open>uint32_t\<close> and
  \<open>long\<close> have 32 bits. Unsigned arithmetic wraps around, as the word types do.
\<close>

type_synonym u08 = "8 word"
type_synonym u16 = "16 word"
type_synonym u32 = "32 word"

text \<open>A function pointer \<open>void ( * )(unsigned char)\<close>: a code address, 0 is the null pointer.\<close>

type_synonym fnptr = "16 word"

text \<open>
  Behaviour that C leaves undefined is a value of the model: an index beyond a two-entry
  array, removing from an empty ring buffer, a division by zero.
\<close>

datatype fault = IndexOutOfBounds | PopFromEmpty | DivisionByZero

section \<open>The ring buffer (buffer.h, buffer.c)\<close>

text \<open>
  Modelled from the spec: the type \<open>cBuffer\<close> and the functions \<open>bufferInit\<close>,
  \<open>bufferAddToEnd\<close>, \<open>bufferGetFromFront\<close> and \<open>bufferFlush\<close> are declared in
  buffer.h and defined in buffer.c, which are not among the sources. uart2.c reads the
  fields \<open>size\<close> and \<open>datalength\<close>; the spec (sections 3 and 4.1) gives the storage,
  the read index (head), the write index (tail) and the operations. The counts and
  indices are taken as \<open>unsigned short\<close>, the type uart2.c uses for its own counter
  \<open>uartRxOverflow\<close> and the width of the \<open>nBytes\<close> they are added to.
  The field \<open>size\<close> is written \<open>size_b\<close> here.
\<close>

record cBuffer =
  storage :: "u08 list"
  size_b :: u16
  head :: u16
  tail :: u16
  datalength :: u16

text \<open>Modelled from the spec: created with a caller-supplied storage region and capacity, empty.\<close>

definition bufferInit :: "u08 list \<Rightarrow> u16 \<Rightarrow> cBuffer" where
  "bufferInit start sz =
     \<lparr>storage = start, size_b = sz, head = 0, tail = 0, datalength = 0\<rparr>"

text \<open>
  Modelled from the spec: \<open>push_back\<close> appends if length < capacity, advances the tail
  (modulo the capacity), increments the length and returns whether it succeeded; a full
  buffer is left as it is.
\<close>

definition bufferAddToEnd :: "cBuffer \<Rightarrow> u08 \<Rightarrow> bool \<times> cBuffer" where
  "bufferAddToEnd b c =
     (if datalength b < size_b b
      then (True, b\<lparr>storage := (storage b)[unat (tail b) := c],
                     tail := (tail b + 1) mod size_b b,
                     datalength := datalength b + 1\<rparr>)
      else (False, b))"

text \<open>
  Modelled from the spec: \<open>pop_front\<close> has the precondition length > 0; it removes and
  returns the oldest byte, advances the head (modulo the capacity) and decrements the
  length. On an empty buffer the result is undefined: \<open>None\<close> here.
\<close>

definition bufferGetFromFront :: "cBuffer \<Rightarrow> (u08 \<times> cBuffer) option" where
  "bufferGetFromFront b =
     (if datalength b = 0 then None
      else Some (storage b ! unat (head b),
                 b\<lparr>head := (head b + 1) mod size_b b, datalength := datalength b - 1\<rparr>))"

text \<open>Modelled from the spec: \<open>flush\<close> resets the length to 0 and head and tail to an empty state.\<close>

definition bufferFlush :: "cBuffer \<Rightarrow> cBuffer" where
  "bufferFlush b = b\<lparr>head := 0, tail := 0, datalength := 0\<rparr>"

text \<open>
  The invariant of the spec's data model: the storage region holds at least the capacity,
  the length is at most the capacity, the head is an index below the capacity and the
  tail is the head plus the length, modulo the capacity.
\<close>

definition buf_ok :: "cBuffer \<Rightarrow> bool" where
  "buf_ok b \<longleftrightarrow>
     unat (size_b b) \<le> length (storage b) \<and>
     datalength b \<le> size_b b \<and>
     (size_b b = 0 \<or> head b < size_b b) \<and>
     unat (tail b) = (unat (head b) + unat (datalength b)) mod unat (size_b b)"

text \<open>The queued bytes, oldest first.\<close>

definition contents :: "cBuffer \<Rightarrow> u08 list" where
  "contents b =
     map (\<lambda>i. storage b ! ((unat (head b) + i) mod unat (size_b b)))
       [0..<unat (datalength b)]"

section \<open>The hardware: one USART of the AVR\<close>

text \<open>
  The registers uart2.c touches, per USART. \<open>UCSRA\<close> is volatile: the hardware changes
  it while the driver polls, so it is the sequence of the values successive reads
  return, with the number of reads made so far. \<open>UDR_sent\<close> lists the bytes written to
  the transmit data register, oldest first; \<open>UDR_rx\<close> is the receive data register.
\<close>

record usart =
  UCSRA :: "nat \<Rightarrow> u08"
  UCSRA_reads :: nat
  UCSRB :: u08
  UBRRL :: u08
  UBRRH :: u08
  UDR_sent :: "u08 list"
  UDR_rx :: u08

text \<open>Bit numbers of avr/io.h (ATmega128).\<close>

definition RXCIE :: nat where "RXCIE = 7"
definition TXCIE :: nat where "TXCIE = 6"
definition UDRE :: nat where "UDRE = 5"
definition RXEN :: nat where "RXEN = 4"
definition TXEN :: nat where "TXEN = 3"

definition BV :: "nat \<Rightarrow> u08" where
  "BV n = push_bit n 1"

text \<open>
  \<open>while(!(UCSRnA & (1<<UDRE)));\<close> reads the status register until the data register
  is empty. It returns the number of reads made, and \<open>None\<close> when the hardware never
  reports ready: the loop then runs forever.
\<close>

partial_function (option) wait_UDRE :: "(nat \<Rightarrow> u08) \<Rightarrow> nat \<Rightarrow> nat option" where
  "wait_UDRE ucsra k =
     (if ucsra k AND BV UDRE = 0 then wait_UDRE ucsra (Suc k) else Some (Suc k))"

text \<open>The busy-wait followed by \<open>outb(UDRn, txData)\<close>.\<close>

definition wait_and_outb :: "usart \<Rightarrow> u08 \<Rightarrow> usart option" where
  "wait_and_outb u txData =
     (case wait_UDRE (UCSRA u) (UCSRA_reads u) of
        None \<Rightarrow> None
      | Some k \<Rightarrow> Some (u\<lparr>UCSRA_reads := k, UDR_sent := UDR_sent u @ [txData]\<rparr>))"

section \<open>The driver state (the globals of uart2.c)\<close>

text \<open>
  The static arrays \<open>uart0RxData\<close>, \<open>uart0TxData\<close>, \<open>uart1RxData\<close> and
  \<open>uart1TxData\<close> (or the external RAM regions) are the memory of the four buffers and
  of nothing else: the model keeps the bytes of each region in the \<open>storage\<close> field of
  its buffer, before initialisation too.
  Each global array has two entries, one per channel. An access \<open>a[nUart]\<close> is
  \<open>nth2 a nUart\<close> or \<open>upd2 a nUart v\<close>, made only after the model has checked
  \<open>nUart < 2\<close>; where the source makes it unchecked with \<open>nUart \<ge> 2\<close>, the model
  yields \<open>IndexOutOfBounds\<close>.
\<close>

definition nth2 :: "'a \<times> 'a \<Rightarrow> u08 \<Rightarrow> 'a" where
  "nth2 a n = (if n = 0 then fst a else snd a)"

definition upd2 :: "'a \<times> 'a \<Rightarrow> u08 \<Rightarrow> 'a \<Rightarrow> 'a \<times> 'a" where
  "upd2 a n v = (if n = 0 then (v, snd a) else (fst a, v))"

record uart2 =
  uartReadyTx :: "u08 \<times> u08"
  uartBufferedTx :: "u08 \<times> u08"
  uartRxBuffer :: "cBuffer \<times> cBuffer"
  uartTxBuffer :: "cBuffer \<times> cBuffer"
  uartRxOverflow :: "u16 \<times> u16"
  UartRxFunc :: "fnptr \<times> fnptr"
  usart0 :: usart
  usart1 :: usart
  SREG_I :: bool

text \<open>
  The macros of uart2.h and the build (not among the sources) are parameters: the clock
  frequency, the buffer sizes, the default baud rates, and whether the device header
  defines the high baud-rate registers.
\<close>

record config =
  F_CPU :: u32
  UART0_RX_BUFFER_SIZE :: u16
  UART0_TX_BUFFER_SIZE :: u16
  UART1_RX_BUFFER_SIZE :: u16
  UART1_TX_BUFFER_SIZE :: u16
  UART0_DEFAULT_BAUD_RATE :: u32
  UART1_DEFAULT_BAUD_RATE :: u32
  UBRR0H_defined :: bool
  UBRR1H_defined :: bool

section \<open>The functions of uart2.c\<close>

text \<open>
  \<open>bufferInit(&uartRxBuffer[0], uart0RxData, UART0_RX_BUFFER_SIZE)\<close>: the region handed
  to \<open>bufferInit\<close> is the one the buffer's \<open>storage\<close> field holds.
\<close>

definition uart0InitBuffers :: "config \<Rightarrow> uart2 \<Rightarrow> uart2" where
  "uart0InitBuffers cfg s =
     (let s1 = s\<lparr>uartRxBuffer :=
                  upd2 (uartRxBuffer s) 0
                    (bufferInit (storage (nth2 (uartRxBuffer s) 0)) (UART0_RX_BUFFER_SIZE cfg))\<rparr>
      in s1\<lparr>uartTxBuffer :=
              upd2 (uartTxBuffer s1) 0
                (bufferInit (storage (nth2 (uartTxBuffer s1) 0)) (UART0_TX_BUFFER_SIZE cfg))\<rparr>)"

definition uart1InitBuffers :: "config \<Rightarrow> uart2 \<Rightarrow> uart2" where
  "uart1InitBuffers cfg s =
     (let s1 = s\<lparr>uartRxBuffer :=
                  upd2 (uartRxBuffer s) 1
                    (bufferInit (storage (nth2 (uartRxBuffer s) 1)) (UART1_RX_BUFFER_SIZE cfg))\<rparr>
      in s1\<lparr>uartTxBuffer :=
              upd2 (uartTxBuffer s1) 1
                (bufferInit (storage (nth2 (uartTxBuffer s1) 1)) (UART1_TX_BUFFER_SIZE cfg))\<rparr>)"

definition uartSetRxHandler :: "u08 \<Rightarrow> fnptr \<Rightarrow> uart2 \<Rightarrow> uart2" where
  "uartSetRxHandler nUart rx_func s =
     (if nUart < 2 then s\<lparr>UartRxFunc := upd2 (UartRxFunc s) nUart rx_func\<rparr> else s)"

text \<open>
  \<open>bauddiv = ((F_CPU+(baudrate*8L))/(baudrate*16L)-1)\<close> is computed in 32 bits and
  truncated to 16; a zero divisor is undefined. Any nonzero \<open>nUart\<close> selects USART1.
\<close>

definition set_UBRR :: "bool \<Rightarrow> u16 \<Rightarrow> usart \<Rightarrow> usart" where
  "set_UBRR high bauddiv u =
     (let u1 = u\<lparr>UBRRL := ucast bauddiv\<rparr>
      in if high then u1\<lparr>UBRRH := ucast (drop_bit 8 bauddiv)\<rparr> else u1)"

definition uartSetBaudRate :: "config \<Rightarrow> u08 \<Rightarrow> u32 \<Rightarrow> uart2 \<Rightarrow> fault + uart2" where
  "uartSetBaudRate cfg nUart baudrate s =
     (if baudrate * 16 = 0 then Inl DivisionByZero
      else
        let bauddiv = (ucast ((F_CPU cfg + baudrate * 8) div (baudrate * 16) - 1) :: u16)
        in if nUart \<noteq> 0
           then Inr (s\<lparr>usart1 := set_UBRR (UBRR1H_defined cfg) bauddiv (usart1 s)\<rparr>)
           else Inr (s\<lparr>usart0 := set_UBRR (UBRR0H_defined cfg) bauddiv (usart0 s)\<rparr>))"

definition uart0Init :: "config \<Rightarrow> uart2 \<Rightarrow> fault + uart2" where
  "uart0Init cfg s =
     (let s1 = uart0InitBuffers cfg s;
          s2 = s1\<lparr>UartRxFunc := upd2 (UartRxFunc s1) 0 0\<rparr>;
          s3 = s2\<lparr>usart0 := (usart0 s2)\<lparr>UCSRB := BV RXCIE OR BV TXCIE OR BV RXEN OR BV TXEN\<rparr>\<rparr>
      in case uartSetBaudRate cfg 0 (UART0_DEFAULT_BAUD_RATE cfg) s3 of
           Inl e \<Rightarrow> Inl e
         | Inr s4 \<Rightarrow>
             Inr (s4\<lparr>uartReadyTx := upd2 (uartReadyTx s4) 0 1,
                     uartBufferedTx := upd2 (uartBufferedTx s4) 0 0,
                     uartRxOverflow := upd2 (uartRxOverflow s4) 0 0,
                     SREG_I := True\<rparr>))"

definition uart1Init :: "config \<Rightarrow> uart2 \<Rightarrow> fault + uart2" where
  "uart1Init cfg s =
     (let s1 = uart1InitBuffers cfg s;
          s2 = s1\<lparr>UartRxFunc := upd2 (UartRxFunc s1) 1 0\<rparr>;
          s3 = s2\<lparr>usart1 := (usart1 s2)\<lparr>UCSRB := BV RXCIE OR BV TXCIE OR BV RXEN OR BV TXEN\<rparr>\<rparr>
      in case uartSetBaudRate cfg 1 (UART1_DEFAULT_BAUD_RATE cfg) s3 of
           Inl e \<Rightarrow> Inl e
         | Inr s4 \<Rightarrow>
             Inr (s4\<lparr>uartReadyTx := upd2 (uartReadyTx s4) 1 1,
                     uartBufferedTx := upd2 (uartBufferedTx s4) 1 0,
                     uartRxOverflow := upd2 (uartRxOverflow s4) 1 0,
                     SREG_I := True\<rparr>))"

definition uartInit :: "config \<Rightarrow> uart2 \<Rightarrow> fault + uart2" where
  "uartInit cfg s =
     (case uart0Init cfg s of Inl e \<Rightarrow> Inl e | Inr s1 \<Rightarrow> uart1Init cfg s1)"

text \<open>\<open>&uartRxBuffer[nUart]\<close> and \<open>&uartTxBuffer[nUart]\<close>: the address of a buffer of the driver.\<close>

datatype cBuffer_ptr = RxBuffer_ptr u08 | TxBuffer_ptr u08

definition uartGetRxBuffer :: "u08 \<Rightarrow> cBuffer_ptr" where
  "uartGetRxBuffer nUart = RxBuffer_ptr nUart"

definition uartGetTxBuffer :: "u08 \<Rightarrow> cBuffer_ptr" where
  "uartGetTxBuffer nUart = TxBuffer_ptr nUart"

text \<open>
  \<open>uartSendByte\<close> waits for the data register of USART1 (any nonzero \<open>nUart\<close>) or
  USART0, writes the byte, then clears \<open>uartReadyTx[nUart]\<close>. \<open>None\<close>: the wait never
  ends.
\<close>

definition uartSendByte :: "u08 \<Rightarrow> u08 \<Rightarrow> uart2 \<Rightarrow> (fault + uart2) option" where
  "uartSendByte nUart txData s =
     (case (if nUart \<noteq> 0
            then map_option (\<lambda>u. s\<lparr>usart1 := u\<rparr>) (wait_and_outb (usart1 s) txData)
            else map_option (\<lambda>u. s\<lparr>usart0 := u\<rparr>) (wait_and_outb (usart0 s) txData)) of
        None \<Rightarrow> None
      | Some s1 \<Rightarrow>
          Some (if nUart < 2
                then Inr (s1\<lparr>uartReadyTx := upd2 (uartReadyTx s1) nUart 0\<rparr>)
                else Inl IndexOutOfBounds))"

definition uart0SendByte :: "u08 \<Rightarrow> uart2 \<Rightarrow> (fault + uart2) option" where
  "uart0SendByte data s = uartSendByte 0 data s"

definition uart1SendByte :: "u08 \<Rightarrow> uart2 \<Rightarrow> (fault + uart2) option" where
  "uart1SendByte data s = uartSendByte 1 data s"

text \<open>
  \<open>uartReceiveByte(nUart, rxData)\<close>: the second argument is the byte \<open>rxData\<close> points
  to before the call; the result is the return value, the byte it points to after the
  call, and the new state.
\<close>

definition uartReceiveByte :: "u08 \<Rightarrow> u08 \<Rightarrow> uart2 \<Rightarrow> fault + (u08 \<times> u08 \<times> uart2)" where
  "uartReceiveByte nUart rxData s =
     (if nUart < 2 then
        if size_b (nth2 (uartRxBuffer s) nUart) \<noteq> 0 then
          if datalength (nth2 (uartRxBuffer s) nUart) \<noteq> 0 then
            (case bufferGetFromFront (nth2 (uartRxBuffer s) nUart) of
               None \<Rightarrow> Inl PopFromEmpty
             | Some (c, b) \<Rightarrow> Inr (1, c, s\<lparr>uartRxBuffer := upd2 (uartRxBuffer s) nUart b\<rparr>))
          else Inr (0, rxData, s)
        else Inr (0, rxData, s)
      else Inl IndexOutOfBounds)"

text \<open>
  \<open>uart0GetByte\<close> and \<open>uart1GetByte\<close> pass the address of the local \<open>c\<close>, which is
  not initialised: its first content is the argument \<open>c\<close> of the model. The result is
  an \<open>int\<close>: the byte, or -1.
\<close>

definition uart0GetByte :: "u08 \<Rightarrow> uart2 \<Rightarrow> fault + (int \<times> uart2)" where
  "uart0GetByte c s =
     (case uartReceiveByte 0 c s of
        Inl e \<Rightarrow> Inl e
      | Inr (r, c1, s1) \<Rightarrow> if r \<noteq> 0 then Inr (uint c1, s1) else Inr (- 1, s1))"

definition uart1GetByte :: "u08 \<Rightarrow> uart2 \<Rightarrow> fault + (int \<times> uart2)" where
  "uart1GetByte c s =
     (case uartReceiveByte 1 c s of
        Inl e \<Rightarrow> Inl e
      | Inr (r, c1, s1) \<Rightarrow> if r \<noteq> 0 then Inr (uint c1, s1) else Inr (- 1, s1))"

definition uartFlushReceiveBuffer :: "u08 \<Rightarrow> uart2 \<Rightarrow> fault + uart2" where
  "uartFlushReceiveBuffer nUart s =
     (if nUart < 2
      then Inr (s\<lparr>uartRxBuffer :=
                   upd2 (uartRxBuffer s) nUart (bufferFlush (nth2 (uartRxBuffer s) nUart))\<rparr>)
      else Inl IndexOutOfBounds)"

definition uartReceiveBufferIsEmpty :: "u08 \<Rightarrow> uart2 \<Rightarrow> fault + u08" where
  "uartReceiveBufferIsEmpty nUart s =
     (if nUart < 2
      then Inr (if datalength (nth2 (uartRxBuffer s) nUart) = 0 then 1 else 0)
      else Inl IndexOutOfBounds)"

definition uartTransmitPending :: "u08 \<Rightarrow> uart2 \<Rightarrow> fault + u08" where
  "uartTransmitPending nUart s =
     (if nUart < 2
      then Inr (if nth2 (uartReadyTx s) nUart = 0 then 1 else 0)
      else Inl IndexOutOfBounds)"

definition uartAddToTxBuffer :: "u08 \<Rightarrow> u08 \<Rightarrow> uart2 \<Rightarrow> fault + uart2" where
  "uartAddToTxBuffer nUart data s =
     (if nUart < 2
      then Inr (s\<lparr>uartTxBuffer :=
                   upd2 (uartTxBuffer s) nUart
                     (snd (bufferAddToEnd (nth2 (uartTxBuffer s) nUart) data))\<rparr>)
      else Inl IndexOutOfBounds)"

definition uart0AddToTxBuffer :: "u08 \<Rightarrow> uart2 \<Rightarrow> fault + uart2" where
  "uart0AddToTxBuffer data s = uartAddToTxBuffer 0 data s"

definition uart1AddToTxBuffer :: "u08 \<Rightarrow> uart2 \<Rightarrow> fault + uart2" where
  "uart1AddToTxBuffer data s = uartAddToTxBuffer 1 data s"

definition uartSendTxBuffer :: "u08 \<Rightarrow> uart2 \<Rightarrow> (fault + uart2) option" where
  "uartSendTxBuffer nUart s =
     (if nUart < 2 then
        let s1 = s\<lparr>uartBufferedTx := upd2 (uartBufferedTx s) nUart 1\<rparr>
        in case bufferGetFromFront (nth2 (uartTxBuffer s1) nUart) of
             None \<Rightarrow> Some (Inl PopFromEmpty)
           | Some (c, b) \<Rightarrow>
               uartSendByte nUart c (s1\<lparr>uartTxBuffer := upd2 (uartTxBuffer s1) nUart b\<rparr>)
      else Some (Inl IndexOutOfBounds))"

text \<open>
  The loop of \<open>uartSendBuffer\<close>:
  \<open>for(i = 0; i < nBytes-1; i++) bufferAddToEnd(&uartTxBuffer[nUart], *buffer++);\<close>
  The user buffer \<open>char *buffer\<close> is the memory it points to, read by offset; \<open>p\<close> is
  the offset the pointer has reached. The result of \<open>bufferAddToEnd\<close> is ignored.
\<close>

function send_loop :: "(nat \<Rightarrow> u08) \<Rightarrow> nat \<Rightarrow> u16 \<Rightarrow> u16 \<Rightarrow> cBuffer \<Rightarrow> cBuffer" where
  "send_loop buffer p i nBytes b =
     (if i < nBytes - 1
      then send_loop buffer (Suc p) (i + 1) nBytes (snd (bufferAddToEnd b (buffer p)))
      else b)"
  by pat_completeness auto
termination
proof (relation "measure (\<lambda>(buffer, p, i, nBytes, b). unat (nBytes - 1) - unat i)")
  show "wf (measure (\<lambda>(buffer, p, i, nBytes, b). unat (nBytes - 1) - unat i))"
    by simp
next
  fix buffer :: "nat \<Rightarrow> u08" and p :: nat and i nBytes :: u16 and b :: cBuffer
  assume less: "i < nBytes - 1"
  then have "unat (i + 1) = Suc (unat i)"
    by unat_arith
  moreover from less have "unat i < unat (nBytes - 1)"
    by (simp add: word_less_nat_alt)
  ultimately show
    "((buffer, Suc p, i + 1, nBytes, snd (bufferAddToEnd b (buffer p))),
      (buffer, p, i, nBytes, b))
     \<in> measure (\<lambda>(buffer, p, i, nBytes, b). unat (nBytes - 1) - unat i)"
    by simp
qed

declare send_loop.simps [simp del]

definition uartSendBuffer ::
  "u08 \<Rightarrow> (nat \<Rightarrow> u08) \<Rightarrow> u16 \<Rightarrow> uart2 \<Rightarrow> (fault + (u08 \<times> uart2)) option" where
  "uartSendBuffer nUart buffer nBytes s =
     (if nUart < 2 then
        if datalength (nth2 (uartTxBuffer s) nUart) + nBytes < size_b (nth2 (uartTxBuffer s) nUart)
           \<and> nBytes \<noteq> 0
        then
          let first = buffer 0;
              s1 = s\<lparr>uartTxBuffer :=
                      upd2 (uartTxBuffer s) nUart
                        (send_loop buffer 1 0 nBytes (nth2 (uartTxBuffer s) nUart))\<rparr>;
              s2 = s1\<lparr>uartBufferedTx := upd2 (uartBufferedTx s1) nUart 1\<rparr>
          in case uartSendByte nUart first s2 of
               None \<Rightarrow> None
             | Some (Inl e) \<Rightarrow> Some (Inl e)
             | Some (Inr s3) \<Rightarrow> Some (Inr (1, s3))
        else Some (Inr (0, s))
      else Some (Inl IndexOutOfBounds))"

text \<open>The transmit-complete interrupt function.\<close>

definition uartTransmitService :: "u08 \<Rightarrow> uart2 \<Rightarrow> fault + uart2" where
  "uartTransmitService nUart s =
     (if nUart < 2 then
        if nth2 (uartBufferedTx s) nUart \<noteq> 0 then
          if datalength (nth2 (uartTxBuffer s) nUart) \<noteq> 0 then
            if nUart \<noteq> 0 then
              (case bufferGetFromFront (nth2 (uartTxBuffer s) 1) of
                 None \<Rightarrow> Inl PopFromEmpty
               | Some (c, b) \<Rightarrow>
                   Inr (s\<lparr>uartTxBuffer := upd2 (uartTxBuffer s) 1 b,
                          usart1 := (usart1 s)\<lparr>UDR_sent := UDR_sent (usart1 s) @ [c]\<rparr>\<rparr>))
            else
              (case bufferGetFromFront (nth2 (uartTxBuffer s) 0) of
                 None \<Rightarrow> Inl PopFromEmpty
               | Some (c, b) \<Rightarrow>
                   Inr (s\<lparr>uartTxBuffer := upd2 (uartTxBuffer s) 0 b,
                          usart0 := (usart0 s)\<lparr>UDR_sent := UDR_sent (usart0 s) @ [c]\<rparr>\<rparr>))
          else
            Inr (s\<lparr>uartBufferedTx := upd2 (uartBufferedTx s) nUart 0,
                   uartReadyTx := upd2 (uartReadyTx s) nUart 1\<rparr>)
        else
          Inr (s\<lparr>uartReadyTx := upd2 (uartReadyTx s) nUart 1\<rparr>)
      else Inl IndexOutOfBounds)"

text \<open>
  The receive-complete interrupt function. The user function behind a function pointer
  is application code: \<open>run f c s\<close> is the driver state it leaves when called with the
  byte \<open>c\<close> in the state \<open>s\<close>.
\<close>

definition uartReceiveService ::
  "(fnptr \<Rightarrow> u08 \<Rightarrow> uart2 \<Rightarrow> uart2) \<Rightarrow> u08 \<Rightarrow> uart2 \<Rightarrow> fault + uart2" where
  "uartReceiveService run nUart s =
     (let c = (if nUart \<noteq> 0 then UDR_rx (usart1 s) else UDR_rx (usart0 s))
      in if nUart < 2 then
           if nth2 (UartRxFunc s) nUart \<noteq> 0
           then Inr (run (nth2 (UartRxFunc s) nUart) c s)
           else
             (case bufferAddToEnd (nth2 (uartRxBuffer s) nUart) c of
                (ok, b) \<Rightarrow>
                  let s1 = s\<lparr>uartRxBuffer := upd2 (uartRxBuffer s) nUart b\<rparr>
                  in if \<not> ok
                     then Inr (s1\<lparr>uartRxOverflow :=
                                    upd2 (uartRxOverflow s1) nUart
                                      (nth2 (uartRxOverflow s1) nUart + 1)\<rparr>)
                     else Inr s1)
         else Inl IndexOutOfBounds)"

text \<open>The interrupt handlers.\<close>

definition SIG_UART0_TRANS :: "uart2 \<Rightarrow> fault + uart2" where
  "SIG_UART0_TRANS s = uartTransmitService 0 s"

definition SIG_UART1_TRANS :: "uart2 \<Rightarrow> fault + uart2" where
  "SIG_UART1_TRANS s = uartTransmitService 1 s"

definition SIG_UART0_RECV :: "(fnptr \<Rightarrow> u08 \<Rightarrow> uart2 \<Rightarrow> uart2) \<Rightarrow> uart2 \<Rightarrow> fault + uart2" where
  "SIG_UART0_RECV run s = uartReceiveService run 0 s"

definition SIG_UART1_RECV :: "(fnptr \<Rightarrow> u08 \<Rightarrow> uart2 \<Rightarrow> uart2) \<Rightarrow> uart2 \<Rightarrow> fault + uart2" where
  "SIG_UART1_RECV run s = uartReceiveService run 1 s"

section \<open>Hardware events and sequences of calls\<close>

text \<open>The USART a channel number selects in the source's \<open>if(nUart)\<close>.\<close>

definition usart_of :: "u08 \<Rightarrow> uart2 \<Rightarrow> usart" where
  "usart_of nUart s = (if nUart \<noteq> 0 then usart1 s else usart0 s)"

text \<open>The hardware has received the byte \<open>c\<close>: it stands in the receive data register.\<close>

definition byte_arrives :: "u08 \<Rightarrow> u08 \<Rightarrow> uart2 \<Rightarrow> uart2" where
  "byte_arrives nUart c s =
     (if nUart \<noteq> 0 then s\<lparr>usart1 := (usart1 s)\<lparr>UDR_rx := c\<rparr>\<rparr>
      else s\<lparr>usart0 := (usart0 s)\<lparr>UDR_rx := c\<rparr>\<rparr>)"

text \<open>One receive-complete event per byte of the list, in order.\<close>

fun receive_events ::
  "(fnptr \<Rightarrow> u08 \<Rightarrow> uart2 \<Rightarrow> uart2) \<Rightarrow> u08 \<Rightarrow> u08 list \<Rightarrow> uart2 \<Rightarrow> fault + uart2" where
  "receive_events run nUart [] s = Inr s"
| "receive_events run nUart (c # cs) s =
     (case uartReceiveService run nUart (byte_arrives nUart c s) of
        Inl e \<Rightarrow> Inl e
      | Inr s1 \<Rightarrow> receive_events run nUart cs s1)"

text \<open>\<open>k\<close> transmit-complete events in a row.\<close>

fun transmit_events :: "nat \<Rightarrow> u08 \<Rightarrow> uart2 \<Rightarrow> fault + uart2" where
  "transmit_events 0 nUart s = Inr s"
| "transmit_events (Suc k) nUart s =
     (case uartTransmitService nUart s of
        Inl e \<Rightarrow> Inl e
      | Inr s1 \<Rightarrow> transmit_events k nUart s1)"

text \<open>
  Every function of uart2.c as one step on the driver state: \<open>state_after\<close> is the
  state a call leaves (its return value dropped), \<open>None\<close> when it never returns.
\<close>

datatype operation =
    Call_uartInit
  | Call_uart0Init
  | Call_uart1Init
  | Call_uart0InitBuffers
  | Call_uart1InitBuffers
  | Call_uartSetRxHandler u08 fnptr
  | Call_uartSetBaudRate u08 u32
  | Call_uartGetRxBuffer u08
  | Call_uartGetTxBuffer u08
  | Call_uartSendByte u08 u08
  | Call_uart0SendByte u08
  | Call_uart1SendByte u08
  | Call_uart0GetByte u08
  | Call_uart1GetByte u08
  | Call_uartReceiveByte u08 u08
  | Call_uartFlushReceiveBuffer u08
  | Call_uartReceiveBufferIsEmpty u08
  | Call_uartTransmitPending u08
  | Call_uartAddToTxBuffer u08 u08
  | Call_uart0AddToTxBuffer u08
  | Call_uart1AddToTxBuffer u08
  | Call_uartSendTxBuffer u08
  | Call_uartSendBuffer u08 "nat \<Rightarrow> u08" u16
  | Call_uartTransmitService u08
  | Call_uartReceiveService u08
  | Int_SIG_UART0_TRANS
  | Int_SIG_UART1_TRANS
  | Int_SIG_UART0_RECV
  | Int_SIG_UART1_RECV

definition drop_result :: "fault + ('a \<times> uart2) \<Rightarrow> fault + uart2" where
  "drop_result r = (case r of Inl e \<Rightarrow> Inl e | Inr (x, s) \<Rightarrow> Inr s)"

definition keep_state :: "uart2 \<Rightarrow> fault + 'a \<Rightarrow> fault + uart2" where
  "keep_state s r = (case r of Inl e \<Rightarrow> Inl e | Inr x \<Rightarrow> Inr s)"

fun state_after ::
  "config \<Rightarrow> (fnptr \<Rightarrow> u08 \<Rightarrow> uart2 \<Rightarrow> uart2) \<Rightarrow> operation \<Rightarrow> uart2 \<Rightarrow> (fault + uart2) option"
  where
  "state_after cfg run Call_uartInit s = Some (uartInit cfg s)"
| "state_after cfg run Call_uart0Init s = Some (uart0Init cfg s)"
| "state_after cfg run Call_uart1Init s = Some (uart1Init cfg s)"
| "state_after cfg run Call_uart0InitBuffers s = Some (Inr (uart0InitBuffers cfg s))"
| "state_after cfg run Call_uart1InitBuffers s = Some (Inr (uart1InitBuffers cfg s))"
| "state_after cfg run (Call_uartSetRxHandler n f) s = Some (Inr (uartSetRxHandler n f s))"
| "state_after cfg run (Call_uartSetBaudRate n baudrate) s = Some (uartSetBaudRate cfg n baudrate s)"
| "state_after cfg run (Call_uartGetRxBuffer n) s = Some (Inr s)"
| "state_after cfg run (Call_uartGetTxBuffer n) s = Some (Inr s)"
| "state_after cfg run (Call_uartSendByte n c) s = uartSendByte n c s"
| "state_after cfg run (Call_uart0SendByte c) s = uart0SendByte c s"
| "state_after cfg run (Call_uart1SendByte c) s = uart1SendByte c s"
| "state_after cfg run (Call_uart0GetByte c) s = Some (drop_result (uart0GetByte c s))"
| "state_after cfg run (Call_uart1GetByte c) s = Some (drop_result (uart1GetByte c s))"
| "state_after cfg run (Call_uartReceiveByte n c) s =
     Some (case uartReceiveByte n c s of Inl e \<Rightarrow> Inl e | Inr (r, c1, s1) \<Rightarrow> Inr s1)"
| "state_after cfg run (Call_uartFlushReceiveBuffer n) s = Some (uartFlushReceiveBuffer n s)"
| "state_after cfg run (Call_uartReceiveBufferIsEmpty n) s =
     Some (keep_state s (uartReceiveBufferIsEmpty n s))"
| "state_after cfg run (Call_uartTransmitPending n) s =
     Some (keep_state s (uartTransmitPending n s))"
| "state_after cfg run (Call_uartAddToTxBuffer n c) s = Some (uartAddToTxBuffer n c s)"
| "state_after cfg run (Call_uart0AddToTxBuffer c) s = Some (uart0AddToTxBuffer c s)"
| "state_after cfg run (Call_uart1AddToTxBuffer c) s = Some (uart1AddToTxBuffer c s)"
| "state_after cfg run (Call_uartSendTxBuffer n) s = uartSendTxBuffer n s"
| "state_after cfg run (Call_uartSendBuffer n buffer nBytes) s =
     map_option drop_result (uartSendBuffer n buffer nBytes s)"
| "state_after cfg run (Call_uartTransmitService n) s = Some (uartTransmitService n s)"
| "state_after cfg run (Call_uartReceiveService n) s = Some (uartReceiveService run n s)"
| "state_after cfg run Int_SIG_UART0_TRANS s = Some (SIG_UART0_TRANS s)"
| "state_after cfg run Int_SIG_UART1_TRANS s = Some (SIG_UART1_TRANS s)"
| "state_after cfg run Int_SIG_UART0_RECV s = Some (SIG_UART0_RECV run s)"
| "state_after cfg run Int_SIG_UART1_RECV s = Some (SIG_UART1_RECV run s)"

text \<open>The calls that initialise channel \<open>n\<close>, and the receive-complete events of channel \<open>n\<close>.\<close>

fun initialises :: "operation \<Rightarrow> u08 \<Rightarrow> bool" where
  "initialises Call_uartInit n = True"
| "initialises Call_uart0Init n = (n = 0)"
| "initialises Call_uart1Init n = (n = 1)"
| "initialises other n = False"

fun receives_on :: "operation \<Rightarrow> u08 \<Rightarrow> bool" where
  "receives_on (Call_uartReceiveService m) n = (m = n)"
| "receives_on Int_SIG_UART0_RECV n = (n = 0)"
| "receives_on Int_SIG_UART1_RECV n = (n = 1)"
| "receives_on other n = False"

section \<open>Concrete states\<close>

text \<open>A USART whose data register is empty at the third read of the status register.\<close>

definition demo_usart :: usart where
  "demo_usart =
     \<lparr>UCSRA = (\<lambda>k. if k < 2 then 0 else BV UDRE), UCSRA_reads = 0, UCSRB = 0,
      UBRRL = 0, UBRRH = 0, UDR_sent = [], UDR_rx = 0\<rparr>"

text \<open>A buffer of capacity 8 holding the three bytes 0x61, 0x62, 0x63 across the wrap of its storage.\<close>

definition demo_buffer :: cBuffer where
  "demo_buffer =
     \<lparr>storage = [0x63, 0, 0, 0, 0, 0, 0x61, 0x62], size_b = 8, head = 6, tail = 1,
      datalength = 3\<rparr>"

text \<open>A full buffer of capacity 4, and an empty one of capacity 8.\<close>

definition full_buffer :: cBuffer where
  "full_buffer =
     \<lparr>storage = [1, 2, 3, 4], size_b = 4, head = 0, tail = 0, datalength = 4\<rparr>"

definition empty_buffer :: cBuffer where
  "empty_buffer =
     \<lparr>storage = [0, 0, 0, 0, 0, 0, 0, 0], size_b = 8, head = 0, tail = 0, datalength = 0\<rparr>"

text \<open>
  Channel 0 has the three-byte buffer in both directions; channel 1 has a full receive
  buffer and an empty transmit buffer. No receive handler is installed.
\<close>

definition demo_state :: uart2 where
  "demo_state =
     \<lparr>uartReadyTx = (1, 1), uartBufferedTx = (0, 0),
      uartRxBuffer = (demo_buffer, full_buffer),
      uartTxBuffer = (demo_buffer, empty_buffer),
      uartRxOverflow = (0, 0),
      UartRxFunc = (0, 0), usart0 = demo_usart, usart1 = demo_usart, SREG_I = True\<rparr>"

text \<open>A build: 16 MHz clock, four buffers of 8 bytes, 9600 baud.\<close>

definition demo_config :: config where
  "demo_config =
     \<lparr>F_CPU = 16000000, UART0_RX_BUFFER_SIZE = 8, UART0_TX_BUFFER_SIZE = 8,
      UART1_RX_BUFFER_SIZE = 8, UART1_TX_BUFFER_SIZE = 8,
      UART0_DEFAULT_BAUD_RATE = 9600, UART1_DEFAULT_BAUD_RATE = 9600,
      UBRR0H_defined = True, UBRR1H_defined = True\<rparr>"

text \<open>A user receive function that echoes the byte: it writes it to the data register of USART0.\<close>

definition demo_run :: "fnptr \<Rightarrow> u08 \<Rightarrow> uart2 \<Rightarrow> uart2" where
  "demo_run f c s = s\<lparr>usart0 := (usart0 s)\<lparr>UDR_sent := UDR_sent (usart0 s) @ [c]\<rparr>\<rparr>"

section \<open>The states the driver can reach\<close>

text \<open>
  The state at reset: the globals are zero, so the four buffers have size 0 and no data;
  their regions are the static arrays, of the configured lengths. The hardware is given.
\<close>

definition unused_buffer :: "u16 \<Rightarrow> cBuffer" where
  "unused_buffer sz =
     \<lparr>storage = replicate (unat sz) 0, size_b = 0, head = 0, tail = 0, datalength = 0\<rparr>"

definition power_on :: "config \<Rightarrow> usart \<Rightarrow> usart \<Rightarrow> uart2" where
  "power_on cfg u0 u1 =
     \<lparr>uartReadyTx = (0, 0), uartBufferedTx = (0, 0),
      uartRxBuffer = (unused_buffer (UART0_RX_BUFFER_SIZE cfg),
                      unused_buffer (UART1_RX_BUFFER_SIZE cfg)),
      uartTxBuffer = (unused_buffer (UART0_TX_BUFFER_SIZE cfg),
                      unused_buffer (UART1_TX_BUFFER_SIZE cfg)),
      uartRxOverflow = (0, 0), UartRxFunc = (0, 0), usart0 = u0, usart1 = u1,
      SREG_I = False\<rparr>"

text \<open>
  The invariant of the driver: the four buffers satisfy the ring-buffer invariant and
  their regions have room for the configured sizes.
\<close>

definition driver_ok :: "config \<Rightarrow> uart2 \<Rightarrow> bool" where
  "driver_ok cfg s \<longleftrightarrow>
     buf_ok (fst (uartRxBuffer s)) \<and> buf_ok (snd (uartRxBuffer s)) \<and>
     buf_ok (fst (uartTxBuffer s)) \<and> buf_ok (snd (uartTxBuffer s)) \<and>
     unat (UART0_RX_BUFFER_SIZE cfg) \<le> length (storage (fst (uartRxBuffer s))) \<and>
     unat (UART1_RX_BUFFER_SIZE cfg) \<le> length (storage (snd (uartRxBuffer s))) \<and>
     unat (UART0_TX_BUFFER_SIZE cfg) \<le> length (storage (fst (uartTxBuffer s))) \<and>
     unat (UART1_TX_BUFFER_SIZE cfg) \<le> length (storage (snd (uartTxBuffer s)))"

section \<open>Lemmas about the ring buffer and the two-entry arrays\<close>

lemma mod_add_inj_le:
  assumes "(h + i) mod n = (h + l) mod n" and "i \<le> l" and "l < n"
  shows "i = (l::nat)"
proof -
  from assms(2) have "h + i \<le> h + l" by simp
  from mod_eq_dvd_iff_nat [OF this, of n] assms(1) have "n dvd (h + l) - (h + i)"
    by metis
  then have "n dvd l - i" by simp
  moreover from assms(2,3) have "l - i < n" by simp
  ultimately have "l - i = 0"
    by (meson dvd_imp_le not_less zero_less_iff_neq_zero)
  with assms(2) show ?thesis by simp
qed

lemma mod_add_inj:
  assumes "(h + i) mod n = (h + l) mod n" and "i < n" and "l < n"
  shows "i = (l::nat)"
proof (cases "i \<le> l")
  case True
  with assms show ?thesis by (blast intro: mod_add_inj_le)
next
  case False
  then have "l \<le> i" by simp
  with assms show ?thesis by (metis mod_add_inj_le)
qed

lemma lt2_cases: "(n::u08) < 2 \<longleftrightarrow> n = 0 \<or> n = 1"
  by unat_arith

lemma nth2_upd2_same: "nth2 (upd2 a n v) n = v"
  by (simp add: nth2_def upd2_def)

lemma nth2_upd2_other: "m < 2 \<Longrightarrow> n < 2 \<Longrightarrow> m \<noteq> n \<Longrightarrow> nth2 (upd2 a n v) m = nth2 a m"
  by (auto simp: nth2_def upd2_def lt2_cases)

lemma upd2_nth2: "upd2 a n (nth2 a n) = a"
  by (simp add: nth2_def upd2_def)

lemma length_contents: "length (contents b) = unat (datalength b)"
  by (simp add: contents_def)

lemma bufferAddToEnd_full:
  "\<not> datalength b < size_b b \<Longrightarrow> bufferAddToEnd b c = (False, b)"
  by (simp add: bufferAddToEnd_def)

lemma push_aux:
  assumes ok: "buf_ok b" and room: "datalength b < size_b b"
  shows "buf_ok (snd (bufferAddToEnd b c))"
    and "contents (snd (bufferAddToEnd b c)) = contents b @ [c]"
    and "fst (bufferAddToEnd b c)"
    and "size_b (snd (bufferAddToEnd b c)) = size_b b"
    and "datalength (snd (bufferAddToEnd b c)) = datalength b + 1"
proof -
  let ?n = "unat (size_b b)" and ?h = "unat (head b)" and ?l = "unat (datalength b)"
  from room have l: "?l < ?n" by (simp add: word_less_nat_alt)
  then have n0: "0 < ?n" by simp
  from ok have len: "?n \<le> length (storage b)" and t: "unat (tail b) = (?h + ?l) mod ?n"
    by (simp_all add: buf_ok_def)
  from room have l1: "unat (datalength b + 1) = Suc ?l" by unat_arith
  have t1: "unat ((tail b + 1) mod size_b b) = (?h + Suc ?l) mod ?n"
  proof -
    have "unat (tail b) < ?n" using t n0 by simp
    then have "unat (tail b + 1) = Suc (unat (tail b))" by unat_arith
    then have "unat ((tail b + 1) mod size_b b) = Suc (unat (tail b)) mod ?n"
      by (simp add: unat_mod)
    also have "\<dots> = (?h + Suc ?l) mod ?n"
      using t by (metis add_Suc_right mod_Suc_eq)
    finally show ?thesis .
  qed
  show "fst (bufferAddToEnd b c)" using room by (simp add: bufferAddToEnd_def)
  show "size_b (snd (bufferAddToEnd b c)) = size_b b" by (simp add: bufferAddToEnd_def)
  show "datalength (snd (bufferAddToEnd b c)) = datalength b + 1"
    using room by (simp add: bufferAddToEnd_def)
  show "buf_ok (snd (bufferAddToEnd b c))"
    using ok room l1 t1 unfolding buf_ok_def bufferAddToEnd_def
    by (simp add: inc_le)
  have "contents (snd (bufferAddToEnd b c)) =
        map (\<lambda>i. (storage b)[(?h + ?l) mod ?n := c] ! ((?h + i) mod ?n)) [0..<Suc ?l]"
    using room l1 t by (simp add: bufferAddToEnd_def contents_def)
  also have "\<dots> = map (\<lambda>i. storage b ! ((?h + i) mod ?n)) [0..<?l] @ [c]"
  proof -
    have "(?h + ?l) mod ?n \<noteq> (?h + i) mod ?n" if "i < ?l" for i
    proof
      assume "(?h + ?l) mod ?n = (?h + i) mod ?n"
      then have "(?h + i) mod ?n = (?h + ?l) mod ?n" by simp
      with that l have "i = ?l" by (intro mod_add_inj [of ?h i ?n ?l]) simp_all
      with that show False by simp
    qed
    then have "map (\<lambda>i. (storage b)[(?h + ?l) mod ?n := c] ! ((?h + i) mod ?n)) [0..<?l]
             = map (\<lambda>i. storage b ! ((?h + i) mod ?n)) [0..<?l]"
      by (intro map_cong) (simp_all add: nth_list_update_neq)
    moreover have "(?h + ?l) mod ?n < length (storage b)"
      using len n0 by (meson less_le_trans mod_less_divisor)
    then have "(storage b)[(?h + ?l) mod ?n := c] ! ((?h + ?l) mod ?n) = c"
      by simp
    ultimately show ?thesis by simp
  qed
  finally show "contents (snd (bufferAddToEnd b c)) = contents b @ [c]"
    by (simp add: contents_def)
qed


lemma pop_aux:
  assumes ok: "buf_ok b" and nonempty: "datalength b \<noteq> 0"
  shows "\<exists>b'. bufferGetFromFront b = Some (hd (contents b), b') \<and> buf_ok b' \<and>
           contents b' = tl (contents b) \<and> size_b b' = size_b b \<and>
           datalength b' = datalength b - 1"
proof -
  let ?n = "unat (size_b b)" and ?h = "unat (head b)" and ?l = "unat (datalength b)"
  let ?b = "b\<lparr>head := (head b + 1) mod size_b b, datalength := datalength b - 1\<rparr>"
  from nonempty have l0: "0 < ?l" by (simp add: unat_gt_0)
  from ok have le: "?l \<le> ?n" by (simp add: buf_ok_def word_le_nat_alt)
  with l0 have n0: "0 < ?n" by simp
  then have "size_b b \<noteq> 0" by (simp add: unat_gt_0)
  with ok have hlt: "head b < size_b b" by (simp add: buf_ok_def)
  then have h: "?h < ?n" by (simp add: word_less_nat_alt)
  from hlt have "unat (head b + 1) = Suc ?h" by unat_arith
  then have h1: "unat ((head b + 1) mod size_b b) = Suc ?h mod ?n"
    by (simp add: unat_mod)
  from nonempty have l1: "unat (datalength b - 1) = ?l - 1" by unat_arith
  from ok have t: "unat (tail b) = (?h + ?l) mod ?n" by (simp add: buf_ok_def)
  have get: "bufferGetFromFront b = Some (storage b ! ?h, ?b)"
    using nonempty by (simp add: bufferGetFromFront_def)
  have hd: "hd (contents b) = storage b ! ?h"
    using l0 h by (simp add: contents_def hd_map upt_conv_Cons)
  have "Suc ?h mod ?n + (?l - 1) = Suc ?h mod ?n + (?l - 1)" by simp
  have "(Suc ?h mod ?n + (?l - 1)) mod ?n = (Suc ?h + (?l - 1)) mod ?n"
    by (simp add: mod_add_left_eq)
  also have "\<dots> = (?h + ?l) mod ?n" using l0 by simp
  finally have t': "unat (tail ?b) = (unat (head ?b) + unat (datalength ?b)) mod unat (size_b ?b)"
    using t h1 l1 by simp
  have "datalength b - 1 \<le> size_b b"
    using l1 le by (simp add: word_le_nat_alt)
  moreover have "(head b + 1) mod size_b b < size_b b"
    using n0 h1 by (simp add: word_less_nat_alt)
  ultimately have ok': "buf_ok ?b"
    using ok t' by (simp add: buf_ok_def)
  have "contents ?b = map (\<lambda>i. storage b ! ((Suc ?h mod ?n + i) mod ?n)) [0..<?l - 1]"
    using h1 l1 by (simp add: contents_def)
  also have "\<dots> = map (\<lambda>i. storage b ! ((?h + Suc i) mod ?n)) [0..<?l - 1]"
    by (simp add: mod_add_left_eq)
  also have "\<dots> = map (\<lambda>i. storage b ! ((?h + i) mod ?n)) (map Suc [0..<?l - 1])"
    by (simp add: comp_def)
  also have "map Suc [0..<?l - 1] = tl [0..<?l]"
    using l0 by (simp add: map_Suc_upt upt_conv_Cons)
  also have "map (\<lambda>i. storage b ! ((?h + i) mod ?n)) (tl [0..<?l]) = tl (contents b)"
    by (simp only: contents_def map_tl)
  finally have "contents ?b = tl (contents b)" .
  with get hd ok' show ?thesis by simp
qed

section \<open>Receiving: flush, empty test and the output pointer\<close>

text \<open>
  C7. For every valid channel and every prior state of the receive buffer (any occupancy,
  any contents, well-formed or not), \<open>uartFlushReceiveBuffer\<close> returns, and
  \<open>uartReceiveBufferIsEmpty\<close> called on the state it leaves returns true (1).
\<close>

theorem flush_then_empty:
  "nUart < 2 \<Longrightarrow>
   (case uartFlushReceiveBuffer nUart s of
      Inl e \<Rightarrow> Inl e
    | Inr s1 \<Rightarrow> uartReceiveBufferIsEmpty nUart s1) = Inr 1"
  by (simp add: uartFlushReceiveBuffer_def uartReceiveBufferIsEmpty_def bufferFlush_def
      nth2_upd2_same)

theorem flush_then_empty_witness:
  "(1::u08) < 2 \<and> datalength (nth2 (uartRxBuffer demo_state) 1) = 4 \<and>
   (case uartFlushReceiveBuffer 1 demo_state of
      Inl e \<Rightarrow> Inl e
    | Inr s1 \<Rightarrow> uartReceiveBufferIsEmpty 1 s1) = Inr 1"
  using flush_then_empty [of 1 demo_state]
  by (simp add: demo_state_def nth2_def full_buffer_def)

text \<open>
  C10. \<open>uartReceiveByte\<close> writes through \<open>rxData\<close> only when it returns 1. On both
  failure paths (a buffer of size 0, an empty buffer) it returns 0, the byte \<open>rxData\<close>
  points to is the one it was before the call, and the state is unchanged; otherwise it
  returns 1 and the byte written is the one \<open>bufferGetFromFront\<close> returned. No call
  returns anything else: a result is 1, or it is 0 with the byte untouched.
\<close>

theorem receive_byte_writes_on_success_only:
  "nUart < 2 \<Longrightarrow>
   (size_b (nth2 (uartRxBuffer s) nUart) = 0 \<or> datalength (nth2 (uartRxBuffer s) nUart) = 0
      \<longrightarrow> uartReceiveByte nUart rxData s = Inr (0, rxData, s)) \<and>
   (size_b (nth2 (uartRxBuffer s) nUart) \<noteq> 0 \<and> datalength (nth2 (uartRxBuffer s) nUart) \<noteq> 0
      \<longrightarrow> (\<exists>c b. bufferGetFromFront (nth2 (uartRxBuffer s) nUart) = Some (c, b) \<and>
            uartReceiveByte nUart rxData s =
              Inr (1, c, s\<lparr>uartRxBuffer := upd2 (uartRxBuffer s) nUart b\<rparr>))) \<and>
   (\<forall>r d s1. uartReceiveByte nUart rxData s = Inr (r, d, s1) \<longrightarrow>
      r = 1 \<or> (r = 0 \<and> d = rxData \<and> s1 = s))"
  by (auto simp: uartReceiveByte_def bufferGetFromFront_def)

theorem receive_byte_writes_on_success_only_witness:
  "uartReceiveByte 1 0xAA (demo_state\<lparr>uartRxBuffer := (demo_buffer, empty_buffer)\<rparr>) =
     Inr (0, 0xAA, demo_state\<lparr>uartRxBuffer := (demo_buffer, empty_buffer)\<rparr>) \<and>
   uartReceiveByte 0 0xAA demo_state =
     Inr (1, 0x61,
          demo_state\<lparr>uartRxBuffer := (demo_buffer\<lparr>head := 7, datalength := 2\<rparr>, full_buffer)\<rparr>)"
  using receive_byte_writes_on_success_only
          [of 1 "demo_state\<lparr>uartRxBuffer := (demo_buffer, empty_buffer)\<rparr>" "0xAA"]
        receive_byte_writes_on_success_only [of 0 demo_state "0xAA"]
  by (simp add: demo_state_def nth2_def upd2_def empty_buffer_def demo_buffer_def
      bufferGetFromFront_def)

section \<open>The receive handler slot\<close>

text \<open>
  C5. On a channel with a user receive function installed (\<open>UartRxFunc[nUart]\<close> is not
  null), a receive-complete event calls that function, once, with the byte that arrived,
  and does nothing else: the function runs in a state whose receive buffer and overflow
  counter are those from before the event, and the state after the event is the state
  that one call leaves. The driver itself neither buffers the byte nor counts it.
\<close>

theorem receive_with_handler:
  "nUart < 2 \<Longrightarrow> nth2 (UartRxFunc s) nUart \<noteq> 0 \<Longrightarrow>
   uartRxBuffer (byte_arrives nUart c s) = uartRxBuffer s \<and>
   uartRxOverflow (byte_arrives nUart c s) = uartRxOverflow s \<and>
   uartReceiveService run nUart (byte_arrives nUart c s) =
     Inr (run (nth2 (UartRxFunc s) nUart) c (byte_arrives nUart c s)) \<and>
   uartReceiveService run nUart s =
     Inr (run (nth2 (UartRxFunc s) nUart) (UDR_rx (usart_of nUart s)) s)"
  by (auto simp: uartReceiveService_def byte_arrives_def usart_of_def)

theorem receive_with_handler_witness:
  "(1::u08) < 2 \<and> nth2 (UartRxFunc (uartSetRxHandler 1 0x100 demo_state)) 1 \<noteq> 0 \<and>
   (case uartReceiveService demo_run 1 (byte_arrives 1 0x5A (uartSetRxHandler 1 0x100 demo_state)) of
      Inl e \<Rightarrow> False
    | Inr s1 \<Rightarrow> UDR_sent (usart0 s1) = [0x5A] \<and>
        uartRxBuffer s1 = uartRxBuffer demo_state \<and>
        uartRxOverflow s1 = uartRxOverflow demo_state)"
  using receive_with_handler [of 1 "uartSetRxHandler 1 0x100 demo_state" "0x5A" demo_run]
  by (simp add: uartSetRxHandler_def demo_state_def nth2_def upd2_def demo_run_def
      byte_arrives_def demo_usart_def)

text \<open>
  C8. \<open>uartSetRxHandler\<close> checks its channel index. For \<open>nUart < 2\<close> it stores the
  function pointer (null clears the slot) in the slot of that channel and changes nothing
  else, the other channel's slot included; for \<open>nUart \<ge> 2\<close> it returns with the whole
  driver state unchanged. No other function of the driver has such a check: with
  \<open>nUart \<ge> 2\<close> each of them indexes a two-entry array out of bounds, except
  \<open>uartSetBaudRate\<close>, which takes every nonzero index for USART1.
\<close>

theorem set_rx_handler_guard:
  "(nUart < 2 \<longrightarrow>
      uartSetRxHandler nUart f s = s\<lparr>UartRxFunc := upd2 (UartRxFunc s) nUart f\<rparr> \<and>
      nth2 (UartRxFunc (uartSetRxHandler nUart f s)) nUart = f \<and>
      (\<forall>m. m < 2 \<and> m \<noteq> nUart \<longrightarrow>
         nth2 (UartRxFunc (uartSetRxHandler nUart f s)) m = nth2 (UartRxFunc s) m)) \<and>
   (\<not> nUart < 2 \<longrightarrow>
      uartSetRxHandler nUart f s = s \<and>
      uartReceiveByte nUart d s = Inl IndexOutOfBounds \<and>
      uartFlushReceiveBuffer nUart s = Inl IndexOutOfBounds \<and>
      uartReceiveBufferIsEmpty nUart s = Inl IndexOutOfBounds \<and>
      uartTransmitPending nUart s = Inl IndexOutOfBounds \<and>
      uartAddToTxBuffer nUart d s = Inl IndexOutOfBounds \<and>
      uartSendTxBuffer nUart s = Some (Inl IndexOutOfBounds) \<and>
      uartSendBuffer nUart buffer nBytes s = Some (Inl IndexOutOfBounds) \<and>
      uartTransmitService nUart s = Inl IndexOutOfBounds \<and>
      uartReceiveService run nUart s = Inl IndexOutOfBounds \<and>
      (\<forall>s1. uartSendByte nUart d s \<noteq> Some (Inr s1)) \<and>
      uartSetBaudRate cfg nUart baudrate s = uartSetBaudRate cfg 1 baudrate s)"
proof -
  have "nUart \<noteq> 0" if "\<not> nUart < 2"
    using that by auto
  then show ?thesis
    by (auto simp: uartSetRxHandler_def nth2_upd2_same nth2_upd2_other uartReceiveByte_def
        uartFlushReceiveBuffer_def uartReceiveBufferIsEmpty_def uartTransmitPending_def
        uartAddToTxBuffer_def uartSendTxBuffer_def uartSendBuffer_def uartTransmitService_def
        uartReceiveService_def uartSendByte_def uartSetBaudRate_def
        split: option.splits)
qed

theorem set_rx_handler_guard_witness:
  "uartSetRxHandler 1 0x100 demo_state = demo_state\<lparr>UartRxFunc := (0, 0x100)\<rparr> \<and>
   uartSetRxHandler 0 0 (demo_state\<lparr>UartRxFunc := (0x200, 0x100)\<rparr>) =
     demo_state\<lparr>UartRxFunc := (0, 0x100)\<rparr> \<and>
   uartSetRxHandler 2 0x100 demo_state = demo_state \<and>
   uartFlushReceiveBuffer 2 demo_state = Inl IndexOutOfBounds"
  using set_rx_handler_guard [of 1 "0x100" demo_state]
        set_rx_handler_guard [of 0 0 "demo_state\<lparr>UartRxFunc := (0x200, 0x100)\<rparr>"]
        set_rx_handler_guard [of 2 "0x100" demo_state]
  by (simp add: demo_state_def upd2_def)

section \<open>The receive-complete event without a handler\<close>

lemma rx_step:
  assumes n: "nUart < 2" and nofn: "nth2 (UartRxFunc s) nUart = 0"
    and ok: "buf_ok (nth2 (uartRxBuffer s) nUart)"
  shows "\<exists>s1. uartReceiveService run nUart (byte_arrives nUart c s) = Inr s1 \<and>
           UartRxFunc s1 = UartRxFunc s \<and>
           buf_ok (nth2 (uartRxBuffer s1) nUart) \<and>
           size_b (nth2 (uartRxBuffer s1) nUart) = size_b (nth2 (uartRxBuffer s) nUart) \<and>
           (if datalength (nth2 (uartRxBuffer s) nUart) < size_b (nth2 (uartRxBuffer s) nUart)
            then contents (nth2 (uartRxBuffer s1) nUart) =
                   contents (nth2 (uartRxBuffer s) nUart) @ [c] \<and>
                 datalength (nth2 (uartRxBuffer s1) nUart) =
                   datalength (nth2 (uartRxBuffer s) nUart) + 1 \<and>
                 uartRxOverflow s1 = uartRxOverflow s
            else s1 = (byte_arrives nUart c s)
                        \<lparr>uartRxOverflow :=
                           upd2 (uartRxOverflow s) nUart (nth2 (uartRxOverflow s) nUart + 1)\<rparr>)"
proof (cases "datalength (nth2 (uartRxBuffer s) nUart) < size_b (nth2 (uartRxBuffer s) nUart)")
  case True
  let ?b = "nth2 (uartRxBuffer s) nUart"
  obtain b1 where b1: "bufferAddToEnd ?b c = (True, b1)"
    using push_aux(3) [OF ok True, of c] by (cases "bufferAddToEnd ?b c") simp
  then have "b1 = snd (bufferAddToEnd ?b c)" by simp
  then have "buf_ok b1" "contents b1 = contents ?b @ [c]" "size_b b1 = size_b ?b"
    "datalength b1 = datalength ?b + 1"
    using push_aux [OF ok True, of c] by simp_all
  with n nofn b1 True show ?thesis
    by (auto simp: uartReceiveService_def byte_arrives_def nth2_upd2_same)
next
  case False
  then have "bufferAddToEnd (nth2 (uartRxBuffer s) nUart) c = (False, nth2 (uartRxBuffer s) nUart)"
    by (rule bufferAddToEnd_full)
  with n nofn ok False show ?thesis
    by (auto simp: uartReceiveService_def byte_arrives_def upd2_nth2)
qed


lemma rx_events:
  assumes n: "nUart < 2"
  shows "nth2 (UartRxFunc s) nUart = 0 \<Longrightarrow> buf_ok (nth2 (uartRxBuffer s) nUart) \<Longrightarrow>
     \<exists>s1. receive_events run nUart cs s = Inr s1 \<and>
       UartRxFunc s1 = UartRxFunc s \<and>
       buf_ok (nth2 (uartRxBuffer s1) nUart) \<and>
       size_b (nth2 (uartRxBuffer s1) nUart) = size_b (nth2 (uartRxBuffer s) nUart) \<and>
       contents (nth2 (uartRxBuffer s1) nUart) =
         contents (nth2 (uartRxBuffer s) nUart) @
         take (unat (size_b (nth2 (uartRxBuffer s) nUart)) -
               unat (datalength (nth2 (uartRxBuffer s) nUart))) cs \<and>
       nth2 (uartRxOverflow s1) nUart =
         nth2 (uartRxOverflow s) nUart +
         of_nat (length cs - (unat (size_b (nth2 (uartRxBuffer s) nUart)) -
                              unat (datalength (nth2 (uartRxBuffer s) nUart))))"
proof (induction cs arbitrary: s)
  case Nil
  then show ?case by simp
next
  case (Cons c cs)
  let ?b = "nth2 (uartRxBuffer s) nUart"
  from rx_step [OF n Cons.prems, of run c] obtain s1 where
    step: "uartReceiveService run nUart (byte_arrives nUart c s) = Inr s1"
    and fn1: "UartRxFunc s1 = UartRxFunc s"
    and ok1: "buf_ok (nth2 (uartRxBuffer s1) nUart)"
    and size1: "size_b (nth2 (uartRxBuffer s1) nUart) = size_b ?b"
    and eff: "if datalength ?b < size_b ?b
       then contents (nth2 (uartRxBuffer s1) nUart) = contents ?b @ [c] \<and>
            datalength (nth2 (uartRxBuffer s1) nUart) = datalength ?b + 1 \<and>
            uartRxOverflow s1 = uartRxOverflow s
       else s1 = (byte_arrives nUart c s)
                   \<lparr>uartRxOverflow :=
                      upd2 (uartRxOverflow s) nUart (nth2 (uartRxOverflow s) nUart + 1)\<rparr>"
    by blast
  from Cons.prems(1) fn1 have nofn1: "nth2 (UartRxFunc s1) nUart = 0" by simp
  from Cons.IH [OF nofn1 ok1] obtain s2 where
    rest: "receive_events run nUart cs s1 = Inr s2"
    and fn2: "UartRxFunc s2 = UartRxFunc s1"
    and ok2: "buf_ok (nth2 (uartRxBuffer s2) nUart)"
    and size2: "size_b (nth2 (uartRxBuffer s2) nUart) = size_b (nth2 (uartRxBuffer s1) nUart)"
    and cont2: "contents (nth2 (uartRxBuffer s2) nUart) =
         contents (nth2 (uartRxBuffer s1) nUart) @
         take (unat (size_b (nth2 (uartRxBuffer s1) nUart)) -
               unat (datalength (nth2 (uartRxBuffer s1) nUart))) cs"
    and ovf2: "nth2 (uartRxOverflow s2) nUart =
         nth2 (uartRxOverflow s1) nUart +
         of_nat (length cs - (unat (size_b (nth2 (uartRxBuffer s1) nUart)) -
                              unat (datalength (nth2 (uartRxBuffer s1) nUart))))"
    by blast
  have all: "receive_events run nUart (c # cs) s = Inr s2"
    using step rest by simp
  show ?case
  proof (cases "datalength ?b < size_b ?b")
    case True
    then have lt: "unat (datalength ?b) < unat (size_b ?b)"
      by (simp add: word_less_nat_alt)
    from True have inc: "unat (datalength ?b + 1) = Suc (unat (datalength ?b))"
      by unat_arith
    from lt obtain r where r: "unat (size_b ?b) - unat (datalength ?b) = Suc r"
      by (metis Suc_diff_Suc)
    then have r1: "unat (size_b ?b) - Suc (unat (datalength ?b)) = r" by simp
    from eff True have e: "contents (nth2 (uartRxBuffer s1) nUart) = contents ?b @ [c]"
      "datalength (nth2 (uartRxBuffer s1) nUart) = datalength ?b + 1"
      "uartRxOverflow s1 = uartRxOverflow s" by simp_all
    show ?thesis
      using all fn1 fn2 ok2 size1 size2 cont2 ovf2 e inc r r1 by simp
  next
    case False
    then have ge: "unat (size_b ?b) - unat (datalength ?b) = 0"
      by (simp add: word_less_nat_alt)
    from eff False have e: "s1 = (byte_arrives nUart c s)
                   \<lparr>uartRxOverflow :=
                      upd2 (uartRxOverflow s) nUart (nth2 (uartRxOverflow s) nUart + 1)\<rparr>"
      by simp
    have b1: "uartRxBuffer s1 = uartRxBuffer s"
      by (simp add: e byte_arrives_def)
    have o1: "nth2 (uartRxOverflow s1) nUart = nth2 (uartRxOverflow s) nUart + 1"
      by (simp add: e nth2_upd2_same)
    show ?thesis
      using all fn1 fn2 ok2 size2 cont2 ovf2 b1 o1 ge by simp
  qed
qed

lemma contents_demo_buffer: "contents demo_buffer = [0x61, 0x62, 0x63]"
  by (simp add: contents_def demo_buffer_def upt_conv_Cons)

lemma buf_ok_demo_buffer: "buf_ok demo_buffer"
  by (simp add: buf_ok_def demo_buffer_def)

lemma contents_full_buffer: "contents full_buffer = [1, 2, 3, 4]"
  by (simp add: contents_def full_buffer_def upt_conv_Cons)

lemma buf_ok_full_buffer: "buf_ok full_buffer"
  by (simp add: buf_ok_def full_buffer_def)

lemma buf_ok_empty_buffer: "buf_ok empty_buffer"
  by (simp add: buf_ok_def empty_buffer_def)

text \<open>The handler has no loop and no precondition: on a valid channel it returns in every state.\<close>

lemma uartReceiveService_returns:
  "nUart < 2 \<Longrightarrow> \<exists>s1. uartReceiveService run nUart s = Inr s1"
  by (auto simp: uartReceiveService_def Let_def split: prod.splits)

text \<open>The 16-bit counter, read as a number: adding to it is adding modulo 65536.\<close>

lemma unat_add_of_nat16:
  "unat ((x :: u16) + of_nat k) = (unat x + k) mod 65536"
proof -
  have "unat (x + of_nat k) = (unat x + unat (of_nat k :: u16)) mod 2 ^ 16"
    by (simp add: unat_word_ariths)
  also have "unat (of_nat k :: u16) = k mod 2 ^ 16"
    by (simp add: unat_of_nat)
  finally show ?thesis by (simp add: mod_add_right_eq)
qed

lemma unat_inc16: "unat ((x :: u16) + 1) = (unat x + 1) mod 65536"
  using unat_add_of_nat16 [of x 1] by simp

text \<open>
  C4, as amended. On a channel with no user receive function, a receive-complete event on
  a well-formed receive buffer always returns, and:
  if the buffer has room, the byte is appended behind the queued bytes and the overflow
  counter is unchanged;
  if the buffer is full, the push fails, \<open>uartRxOverflow[nUart]\<close> becomes its old value
  plus 1 modulo 65536 (exactly old + 1 unless it was 65535, when it becomes 0) and nothing
  else changes: the byte is dropped and the buffer, its length and its queued bytes are as
  before;
  so a sequence of events queues the arriving bytes in arrival order until the buffer is
  full, and the counter grows by the number of the remaining ones, modulo 65536.
\<close>

theorem receive_without_handler:
  assumes "nUart < 2" and "nth2 (UartRxFunc s) nUart = 0"
    and "buf_ok (nth2 (uartRxBuffer s) nUart)"
  shows
    "(datalength (nth2 (uartRxBuffer s) nUart) < size_b (nth2 (uartRxBuffer s) nUart) \<longrightarrow>
        (\<exists>s1. uartReceiveService run nUart (byte_arrives nUart c s) = Inr s1 \<and>
           contents (nth2 (uartRxBuffer s1) nUart) = contents (nth2 (uartRxBuffer s) nUart) @ [c] \<and>
           uartRxOverflow s1 = uartRxOverflow s)) \<and>
     (\<not> datalength (nth2 (uartRxBuffer s) nUart) < size_b (nth2 (uartRxBuffer s) nUart) \<longrightarrow>
        (\<exists>s1. uartReceiveService run nUart (byte_arrives nUart c s) = Inr s1 \<and>
           s1 = (byte_arrives nUart c s)
                  \<lparr>uartRxOverflow :=
                     upd2 (uartRxOverflow s) nUart (nth2 (uartRxOverflow s) nUart + 1)\<rparr> \<and>
           uartRxBuffer s1 = uartRxBuffer s \<and>
           unat (nth2 (uartRxOverflow s1) nUart) =
             (unat (nth2 (uartRxOverflow s) nUart) + 1) mod 65536 \<and>
           (unat (nth2 (uartRxOverflow s1) nUart) = unat (nth2 (uartRxOverflow s) nUart) + 1
              \<longleftrightarrow> nth2 (uartRxOverflow s) nUart \<noteq> 0xFFFF))) \<and>
     (\<exists>s2. receive_events run nUart cs s = Inr s2 \<and>
        contents (nth2 (uartRxBuffer s2) nUart) =
          contents (nth2 (uartRxBuffer s) nUart) @
          take (unat (size_b (nth2 (uartRxBuffer s) nUart)) -
                unat (datalength (nth2 (uartRxBuffer s) nUart))) cs \<and>
        nth2 (uartRxOverflow s2) nUart =
          nth2 (uartRxOverflow s) nUart +
          of_nat (length cs - (unat (size_b (nth2 (uartRxBuffer s) nUart)) -
                               unat (datalength (nth2 (uartRxBuffer s) nUart)))) \<and>
        unat (nth2 (uartRxOverflow s2) nUart) =
          (unat (nth2 (uartRxOverflow s) nUart) +
           (length cs - (unat (size_b (nth2 (uartRxBuffer s) nUart)) -
                         unat (datalength (nth2 (uartRxBuffer s) nUart))))) mod 65536)"
proof -
  let ?x = "nth2 (uartRxOverflow s) nUart"
  let ?s1 = "(byte_arrives nUart c s)\<lparr>uartRxOverflow := upd2 (uartRxOverflow s) nUart (?x + 1)\<rparr>"
  from rx_step [OF assms, of run c] obtain s1 where
    s1: "uartReceiveService run nUart (byte_arrives nUart c s) = Inr s1"
    "if datalength (nth2 (uartRxBuffer s) nUart) < size_b (nth2 (uartRxBuffer s) nUart)
       then contents (nth2 (uartRxBuffer s1) nUart) =
              contents (nth2 (uartRxBuffer s) nUart) @ [c] \<and>
            datalength (nth2 (uartRxBuffer s1) nUart) =
              datalength (nth2 (uartRxBuffer s) nUart) + 1 \<and>
            uartRxOverflow s1 = uartRxOverflow s
       else s1 = ?s1"
    by blast
  have buf: "uartRxBuffer ?s1 = uartRxBuffer s"
    by (simp add: byte_arrives_def)
  have cnt: "nth2 (uartRxOverflow ?s1) nUart = ?x + 1"
    by (simp add: nth2_upd2_same)
  have md: "unat (?x + 1) = (unat ?x + 1) mod 65536"
    by (rule unat_inc16)
  have "unat ?x < 65536" using unsigned_less [of ?x] by simp
  moreover have "?x = 0xFFFF \<longleftrightarrow> unat ?x = 65535"
    using word_unat_eq_iff [of ?x "0xFFFF"] by simp
  ultimately have exact: "unat (?x + 1) = unat ?x + 1 \<longleftrightarrow> ?x \<noteq> 0xFFFF"
    unfolding md by auto
  from rx_events [OF assms, of run cs] obtain s2 where
    s2: "receive_events run nUart cs s = Inr s2"
    "contents (nth2 (uartRxBuffer s2) nUart) =
          contents (nth2 (uartRxBuffer s) nUart) @
          take (unat (size_b (nth2 (uartRxBuffer s) nUart)) -
                unat (datalength (nth2 (uartRxBuffer s) nUart))) cs"
    "nth2 (uartRxOverflow s2) nUart =
          ?x + of_nat (length cs - (unat (size_b (nth2 (uartRxBuffer s) nUart)) -
                               unat (datalength (nth2 (uartRxBuffer s) nUart))))"
    by blast
  from s2(3) have "unat (nth2 (uartRxOverflow s2) nUart) =
          (unat ?x + (length cs - (unat (size_b (nth2 (uartRxBuffer s) nUart)) -
                         unat (datalength (nth2 (uartRxBuffer s) nUart))))) mod 65536"
    by (simp only: unat_add_of_nat16)
  with s1 s2 buf cnt md exact show ?thesis by auto
qed

theorem receive_without_handler_witness:
  "(\<exists>s2. receive_events demo_run 0 [0x64, 0x65, 0x66, 0x67, 0x68, 0x69, 0x6A] demo_state = Inr s2 \<and>
      contents (nth2 (uartRxBuffer s2) 0) = [0x61, 0x62, 0x63, 0x64, 0x65, 0x66, 0x67, 0x68] \<and>
      nth2 (uartRxOverflow s2) 0 = 2) \<and>
   uartReceiveService demo_run 1 (byte_arrives 1 0x64 demo_state) =
     Inr ((byte_arrives 1 0x64 demo_state)\<lparr>uartRxOverflow := (0, 1)\<rparr>) \<and>
   uartReceiveService demo_run 1
     (byte_arrives 1 0x64 (demo_state\<lparr>uartRxOverflow := (0, 0xFFFF)\<rparr>)) =
     Inr ((byte_arrives 1 0x64 demo_state)\<lparr>uartRxOverflow := (0, 0)\<rparr>)"
proof -
  let ?t = "demo_state\<lparr>uartRxOverflow := (0, 0xFFFF)\<rparr>"
  have pre0: "(0 :: u08) < 2" "nth2 (UartRxFunc demo_state) 0 = 0"
    "buf_ok (nth2 (uartRxBuffer demo_state) 0)"
    by (simp_all add: demo_state_def nth2_def buf_ok_demo_buffer)
  have pre1: "(1 :: u08) < 2" "nth2 (UartRxFunc demo_state) 1 = 0"
    "buf_ok (nth2 (uartRxBuffer demo_state) 1)"
    by (simp_all add: demo_state_def nth2_def buf_ok_full_buffer)
  have pre2: "(1 :: u08) < 2" "nth2 (UartRxFunc ?t) 1 = 0" "buf_ok (nth2 (uartRxBuffer ?t) 1)"
    by (simp_all add: demo_state_def nth2_def buf_ok_full_buffer)
  have full: "\<not> datalength (nth2 (uartRxBuffer demo_state) 1)
                < size_b (nth2 (uartRxBuffer demo_state) 1)"
    by (simp add: demo_state_def nth2_def full_buffer_def)
  have room: "unat (size_b (nth2 (uartRxBuffer demo_state) 0)) -
              unat (datalength (nth2 (uartRxBuffer demo_state) 0)) = 5"
    "nth2 (uartRxOverflow demo_state) 0 = 0"
    by (simp_all add: demo_state_def nth2_def demo_buffer_def)
  have queued: "contents (nth2 (uartRxBuffer demo_state) 0) = [0x61, 0x62, 0x63]"
    by (simp add: demo_state_def nth2_def contents_demo_buffer)
  from receive_without_handler
         [OF pre0, of demo_run "0x64" "[0x64, 0x65, 0x66, 0x67, 0x68, 0x69, 0x6A]"]
  have a: "\<exists>s2. receive_events demo_run 0 [0x64, 0x65, 0x66, 0x67, 0x68, 0x69, 0x6A] demo_state
             = Inr s2 \<and>
      contents (nth2 (uartRxBuffer s2) 0) = [0x61, 0x62, 0x63, 0x64, 0x65, 0x66, 0x67, 0x68] \<and>
      nth2 (uartRxOverflow s2) 0 = 2"
    unfolding room queued by auto
  from receive_without_handler [OF pre1, of demo_run "0x64" "[]"] full
  have b: "uartReceiveService demo_run 1 (byte_arrives 1 0x64 demo_state) =
     Inr ((byte_arrives 1 0x64 demo_state)\<lparr>uartRxOverflow := (0, 1)\<rparr>)"
    by (simp add: demo_state_def nth2_def upd2_def)
  from receive_without_handler [OF pre2, of demo_run "0x64" "[]"] full
  have c: "uartReceiveService demo_run 1 (byte_arrives 1 0x64 ?t) =
     Inr ((byte_arrives 1 0x64 demo_state)\<lparr>uartRxOverflow := (0, 0)\<rparr>)"
    by (simp add: demo_state_def nth2_def upd2_def byte_arrives_def)
  from a b c show ?thesis by blast
qed

text \<open>
  C4 as stated fails: with the counter of channel 1 at 65535, a full receive buffer and no
  user function, a receive-complete event drops the byte and leaves the counter at 0,
  which is not 65535 incremented by 1.
\<close>

theorem receive_overflow_increment_counterexample:
  "nth2 (UartRxFunc (demo_state\<lparr>uartRxOverflow := (0, 0xFFFF)\<rparr>)) 1 = 0 \<and>
   datalength (nth2 (uartRxBuffer (demo_state\<lparr>uartRxOverflow := (0, 0xFFFF)\<rparr>)) 1) =
     size_b (nth2 (uartRxBuffer (demo_state\<lparr>uartRxOverflow := (0, 0xFFFF)\<rparr>)) 1) \<and>
   unat (nth2 (uartRxOverflow (demo_state\<lparr>uartRxOverflow := (0, 0xFFFF)\<rparr>)) 1) = 65535 \<and>
   (case uartReceiveService demo_run 1
           (byte_arrives 1 0x42 (demo_state\<lparr>uartRxOverflow := (0, 0xFFFF)\<rparr>)) of
      Inl e \<Rightarrow> False
    | Inr s1 \<Rightarrow> unat (nth2 (uartRxOverflow s1) 1) = 0 \<and>
        unat (nth2 (uartRxOverflow s1) 1) \<noteq> 65535 + 1)"
  by (simp add: uartReceiveService_def byte_arrives_def demo_state_def
      nth2_def upd2_def full_buffer_def bufferAddToEnd_def Let_def)

section \<open>Reading received bytes\<close>

lemma uint_byte_not_minus_one: "uint (c::u08) \<noteq> - 1"
  using uint_ge_0 [of c] by arith

text \<open>
  C6. For every valid channel:
  \<open>uartReceiveByte\<close> returns 0 when the receive buffer has size 0 or is empty, and then
  \<open>uart0GetByte\<close> (channel 0) and \<open>uart1GetByte\<close> (channel 1) return -1;
  on a well-formed buffer that is not empty, \<open>uartReceiveByte\<close> returns 1 with the oldest
  queued byte and removes it, and the \<open>GetByte\<close> functions return that byte as an
  \<open>int\<close>;
  a byte read as an \<open>int\<close> lies in 0..255, so -1 is none of them;
  after one receive-complete event on an empty well-formed buffer of positive size (no
  user function installed), the \<open>GetByte\<close> function returns the byte that arrived, and
  called again it returns -1.
\<close>

theorem receive_byte_or_sentinel:
  assumes n: "nUart < 2"
  shows
    "(size_b (nth2 (uartRxBuffer s) nUart) = 0 \<or> datalength (nth2 (uartRxBuffer s) nUart) = 0 \<longrightarrow>
        uartReceiveByte nUart d s = Inr (0, d, s) \<and>
        (if nUart = 0 then uart0GetByte else uart1GetByte) d s = Inr (- 1, s)) \<and>
     (buf_ok (nth2 (uartRxBuffer s) nUart) \<and> size_b (nth2 (uartRxBuffer s) nUart) \<noteq> 0 \<and>
      datalength (nth2 (uartRxBuffer s) nUart) \<noteq> 0 \<longrightarrow>
        (\<exists>b. buf_ok b \<and> contents b = tl (contents (nth2 (uartRxBuffer s) nUart)) \<and>
           uartReceiveByte nUart d s =
             Inr (1, hd (contents (nth2 (uartRxBuffer s) nUart)),
                  s\<lparr>uartRxBuffer := upd2 (uartRxBuffer s) nUart b\<rparr>) \<and>
           (if nUart = 0 then uart0GetByte else uart1GetByte) d s =
             Inr (uint (hd (contents (nth2 (uartRxBuffer s) nUart))),
                  s\<lparr>uartRxBuffer := upd2 (uartRxBuffer s) nUart b\<rparr>))) \<and>
     (\<forall>c::u08. uint c \<noteq> - 1 \<and> 0 \<le> uint c \<and> uint c \<le> 255) \<and>
     (buf_ok (nth2 (uartRxBuffer s) nUart) \<and> size_b (nth2 (uartRxBuffer s) nUart) \<noteq> 0 \<and>
      datalength (nth2 (uartRxBuffer s) nUart) = 0 \<and> nth2 (UartRxFunc s) nUart = 0 \<longrightarrow>
        (\<exists>s1 s2. uartReceiveService run nUart (byte_arrives nUart c s) = Inr s1 \<and>
           (if nUart = 0 then uart0GetByte else uart1GetByte) d s1 = Inr (uint c, s2) \<and>
           (if nUart = 0 then uart0GetByte else uart1GetByte) d s2 = Inr (- 1, s2)))"
proof -
  let ?b = "nth2 (uartRxBuffer s) nUart"
  let ?get = "if nUart = 0 then uart0GetByte else uart1GetByte"
  from n have n01: "nUart = 0 \<or> nUart = 1" by (simp add: lt2_cases)
  have get: "?get d t = (case uartReceiveByte nUart d t of
        Inl e \<Rightarrow> Inl e
      | Inr (r, c1, s1) \<Rightarrow> if r \<noteq> 0 then Inr (uint c1, s1) else Inr (- 1, s1))" for d t
    using n01 by (auto simp: uart0GetByte_def uart1GetByte_def)
  have empty: "uartReceiveByte nUart d t = Inr (0, d, t) \<and> ?get d t = Inr (- 1, t)"
    if "size_b (nth2 (uartRxBuffer t) nUart) = 0 \<or> datalength (nth2 (uartRxBuffer t) nUart) = 0"
    for d t
    using that n unfolding get by (auto simp: uartReceiveByte_def)
  have nonempty: "\<exists>b. buf_ok b \<and> contents b = tl (contents (nth2 (uartRxBuffer t) nUart)) \<and>
           datalength b = datalength (nth2 (uartRxBuffer t) nUart) - 1 \<and>
           uartReceiveByte nUart d t =
             Inr (1, hd (contents (nth2 (uartRxBuffer t) nUart)),
                  t\<lparr>uartRxBuffer := upd2 (uartRxBuffer t) nUart b\<rparr>) \<and>
           ?get d t =
             Inr (uint (hd (contents (nth2 (uartRxBuffer t) nUart))),
                  t\<lparr>uartRxBuffer := upd2 (uartRxBuffer t) nUart b\<rparr>)"
    if ok: "buf_ok (nth2 (uartRxBuffer t) nUart)"
      and sz: "size_b (nth2 (uartRxBuffer t) nUart) \<noteq> 0"
      and dl: "datalength (nth2 (uartRxBuffer t) nUart) \<noteq> 0" for d t
  proof -
    from pop_aux [OF ok dl] obtain b where
      b: "bufferGetFromFront (nth2 (uartRxBuffer t) nUart) =
            Some (hd (contents (nth2 (uartRxBuffer t) nUart)), b)"
      "buf_ok b" "contents b = tl (contents (nth2 (uartRxBuffer t) nUart))"
      "datalength b = datalength (nth2 (uartRxBuffer t) nUart) - 1"
      by blast
    have "uartReceiveByte nUart d t =
             Inr (1, hd (contents (nth2 (uartRxBuffer t) nUart)),
                  t\<lparr>uartRxBuffer := upd2 (uartRxBuffer t) nUart b\<rparr>)"
      using n sz dl b(1) by (simp add: uartReceiveByte_def)
    with b show ?thesis unfolding get by auto
  qed
  have one: "\<exists>s1 s2. uartReceiveService run nUart (byte_arrives nUart c s) = Inr s1 \<and>
           ?get d s1 = Inr (uint c, s2) \<and> ?get d s2 = Inr (- 1, s2)"
    if ok: "buf_ok ?b" and sz: "size_b ?b \<noteq> 0" and dl: "datalength ?b = 0"
      and nofn: "nth2 (UartRxFunc s) nUart = 0"
  proof -
    from sz dl have room: "datalength ?b < size_b ?b"
      by (simp add: word_neq_0_conv)
    from rx_step [OF n nofn ok, of run c] room obtain s1 where
      s1: "uartReceiveService run nUart (byte_arrives nUart c s) = Inr s1"
      "buf_ok (nth2 (uartRxBuffer s1) nUart)"
      "size_b (nth2 (uartRxBuffer s1) nUart) = size_b ?b"
      "contents (nth2 (uartRxBuffer s1) nUart) = contents ?b @ [c]"
      "datalength (nth2 (uartRxBuffer s1) nUart) = datalength ?b + 1"
      by auto
    from dl have "contents ?b = []" by (simp add: contents_def)
    with s1 have c1: "contents (nth2 (uartRxBuffer s1) nUart) = [c]" by simp
    from s1 dl have dl1: "datalength (nth2 (uartRxBuffer s1) nUart) \<noteq> 0" by simp
    from s1 sz have sz1: "size_b (nth2 (uartRxBuffer s1) nUart) \<noteq> 0" by simp
    from nonempty [OF s1(2) sz1 dl1, of d] c1 s1(5) dl obtain b where
      b: "datalength b = 0"
      "?get d s1 = Inr (uint c, s1\<lparr>uartRxBuffer := upd2 (uartRxBuffer s1) nUart b\<rparr>)"
      by auto
    let ?s2 = "s1\<lparr>uartRxBuffer := upd2 (uartRxBuffer s1) nUart b\<rparr>"
    have "datalength (nth2 (uartRxBuffer ?s2) nUart) = 0"
      using b(1) by (simp add: nth2_upd2_same)
    then have "?get d ?s2 = Inr (- 1, ?s2)"
      using empty [of ?s2 d] by blast
    with s1(1) b(2) show ?thesis by blast
  qed
  have range: "\<forall>c::u08. uint c \<noteq> - 1 \<and> 0 \<le> uint c \<and> uint c \<le> 255"
  proof
    fix c :: u08
    have "uint c < 2 ^ 8" using uint_bounded [of c] by simp
    then show "uint c \<noteq> - 1 \<and> 0 \<le> uint c \<and> uint c \<le> 255"
      using uint_byte_not_minus_one [of c] by simp
  qed
  show ?thesis
    using empty [of s d] nonempty [of s d] one range by blast
qed

theorem receive_byte_or_sentinel_witness:
  "uart0GetByte 0 (demo_state\<lparr>uartRxBuffer := (empty_buffer, full_buffer)\<rparr>) =
     Inr (- 1, demo_state\<lparr>uartRxBuffer := (empty_buffer, full_buffer)\<rparr>) \<and>
   (\<exists>s1. uart1GetByte 0 demo_state = Inr (1, s1)) \<and>
   (\<exists>s1 s2. uartReceiveService demo_run 0
               (byte_arrives 0 0x7E (demo_state\<lparr>uartRxBuffer := (empty_buffer, full_buffer)\<rparr>)) =
               Inr s1 \<and>
            uart0GetByte 0 s1 = Inr (0x7E, s2) \<and> uart0GetByte 0 s2 = Inr (- 1, s2))"
  using receive_byte_or_sentinel
          [of 0 "demo_state\<lparr>uartRxBuffer := (empty_buffer, full_buffer)\<rparr>" 0 demo_run "0x7E"]
        receive_byte_or_sentinel [of 1 demo_state 0 demo_run "0x7E"]
  by (simp add: demo_state_def nth2_def buf_ok_empty_buffer buf_ok_full_buffer
      contents_full_buffer)
     (auto simp: empty_buffer_def full_buffer_def)

section \<open>The transmit-complete event\<close>

lemma tx_step:
  assumes n: "nUart < 2" and ok: "buf_ok (nth2 (uartTxBuffer s) nUart)"
    and buffered: "nth2 (uartBufferedTx s) nUart \<noteq> 0"
    and dl: "datalength (nth2 (uartTxBuffer s) nUart) \<noteq> 0"
  shows "\<exists>s1. uartTransmitService nUart s = Inr s1 \<and>
           UDR_sent (usart_of nUart s1) =
             UDR_sent (usart_of nUart s) @ [hd (contents (nth2 (uartTxBuffer s) nUart))] \<and>
           contents (nth2 (uartTxBuffer s1) nUart) = tl (contents (nth2 (uartTxBuffer s) nUart)) \<and>
           buf_ok (nth2 (uartTxBuffer s1) nUart) \<and>
           uartReadyTx s1 = uartReadyTx s \<and> uartBufferedTx s1 = uartBufferedTx s"
proof -
  from pop_aux [OF ok dl] obtain b where
    b: "bufferGetFromFront (nth2 (uartTxBuffer s) nUart) =
          Some (hd (contents (nth2 (uartTxBuffer s) nUart)), b)"
    "buf_ok b" "contents b = tl (contents (nth2 (uartTxBuffer s) nUart))"
    by blast
  from n have "nUart = 0 \<or> nUart = 1" by (simp add: lt2_cases)
  then show ?thesis
  proof
    assume "nUart = 0"
    with n buffered dl b show ?thesis
      by (simp add: uartTransmitService_def usart_of_def nth2_upd2_same)
  next
    assume "nUart = 1"
    with n buffered dl b show ?thesis
      by (simp add: uartTransmitService_def usart_of_def nth2_upd2_same)
  qed
qed

lemma tx_events_prefix:
  assumes n: "nUart < 2"
  shows "buf_ok (nth2 (uartTxBuffer s) nUart) \<Longrightarrow> nth2 (uartBufferedTx s) nUart \<noteq> 0 \<Longrightarrow>
     j \<le> length (contents (nth2 (uartTxBuffer s) nUart)) \<Longrightarrow>
     \<exists>s1. transmit_events j nUart s = Inr s1 \<and>
       UDR_sent (usart_of nUart s1) =
         UDR_sent (usart_of nUart s) @ take j (contents (nth2 (uartTxBuffer s) nUart)) \<and>
       contents (nth2 (uartTxBuffer s1) nUart) = drop j (contents (nth2 (uartTxBuffer s) nUart)) \<and>
       buf_ok (nth2 (uartTxBuffer s1) nUart) \<and>
       uartReadyTx s1 = uartReadyTx s \<and> uartBufferedTx s1 = uartBufferedTx s"
proof (induction j arbitrary: s)
  case 0
  then show ?case by simp
next
  case (Suc j)
  let ?cs = "contents (nth2 (uartTxBuffer s) nUart)"
  from Suc.prems(3) have ne: "?cs \<noteq> []" by auto
  then have dl: "datalength (nth2 (uartTxBuffer s) nUart) \<noteq> 0"
    by (auto simp: contents_def)
  from tx_step [OF n Suc.prems(1,2) dl] obtain s1 where
    s1: "uartTransmitService nUart s = Inr s1"
    "UDR_sent (usart_of nUart s1) = UDR_sent (usart_of nUart s) @ [hd ?cs]"
    "contents (nth2 (uartTxBuffer s1) nUart) = tl ?cs"
    "buf_ok (nth2 (uartTxBuffer s1) nUart)"
    "uartReadyTx s1 = uartReadyTx s" "uartBufferedTx s1 = uartBufferedTx s"
    by blast
  from Suc.prems(3) s1(3) have len: "j \<le> length (contents (nth2 (uartTxBuffer s1) nUart))"
    by simp
  from Suc.prems(2) s1(6) have buffered1: "nth2 (uartBufferedTx s1) nUart \<noteq> 0" by simp
  from Suc.IH [OF s1(4) buffered1 len] obtain s2 where
    s2: "transmit_events j nUart s1 = Inr s2"
    "UDR_sent (usart_of nUart s2) =
       UDR_sent (usart_of nUart s1) @ take j (contents (nth2 (uartTxBuffer s1) nUart))"
    "contents (nth2 (uartTxBuffer s2) nUart) = drop j (contents (nth2 (uartTxBuffer s1) nUart))"
    "buf_ok (nth2 (uartTxBuffer s2) nUart)"
    "uartReadyTx s2 = uartReadyTx s1" "uartBufferedTx s2 = uartBufferedTx s1"
    by blast
  from ne have "take (Suc j) ?cs = hd ?cs # take j (tl ?cs)"
    by (cases ?cs) simp_all
  moreover have "drop (Suc j) ?cs = drop j (tl ?cs)"
    by (simp add: drop_Suc)
  ultimately show ?case
    using s1 s2 by simp
qed

lemma transmit_events_Suc_end:
  "transmit_events (Suc k) nUart s =
     (case transmit_events k nUart s of Inl e \<Rightarrow> Inl e | Inr s1 \<Rightarrow> uartTransmitService nUart s1)"
proof (induction k arbitrary: s)
  case 0
  show ?case by (simp split: sum.splits)
next
  case (Suc k)
  show ?case
  proof (cases "uartTransmitService nUart s")
    case (Inl e)
    then show ?thesis by simp
  next
    case (Inr s1)
    with Suc.IH [of s1] show ?thesis by simp
  qed
qed

text \<open>
  C3. On a valid channel whose transmit buffer is well-formed and holds k bytes, with
  \<open>uartBufferedTx[nUart]\<close> set: the first j \<le> k transmit-complete events write the
  first j queued bytes to the data register of the channel's USART, in queue order, and
  leave \<open>uartReadyTx\<close> and \<open>uartBufferedTx\<close> as they were; event k + 1 finds the
  buffer empty, writes no byte, sets \<open>uartReadyTx[nUart]\<close> to 1 and clears
  \<open>uartBufferedTx[nUart]\<close>. With \<open>uartBufferedTx[nUart]\<close> clear (single-byte mode) an
  event sets \<open>uartReadyTx[nUart]\<close> to 1 and changes nothing else.
\<close>

theorem transmit_drains_fifo:
  assumes n: "nUart < 2"
  shows
    "(buf_ok (nth2 (uartTxBuffer s) nUart) \<and> nth2 (uartBufferedTx s) nUart \<noteq> 0 \<longrightarrow>
        (\<forall>j. j \<le> length (contents (nth2 (uartTxBuffer s) nUart)) \<longrightarrow>
           (\<exists>s1. transmit_events j nUart s = Inr s1 \<and>
              UDR_sent (usart_of nUart s1) =
                UDR_sent (usart_of nUart s) @ take j (contents (nth2 (uartTxBuffer s) nUart)) \<and>
              contents (nth2 (uartTxBuffer s1) nUart) =
                drop j (contents (nth2 (uartTxBuffer s) nUart)) \<and>
              uartReadyTx s1 = uartReadyTx s \<and> uartBufferedTx s1 = uartBufferedTx s)) \<and>
        (\<exists>s2. transmit_events (Suc (length (contents (nth2 (uartTxBuffer s) nUart)))) nUart s
                = Inr s2 \<and>
           UDR_sent (usart_of nUart s2) =
             UDR_sent (usart_of nUart s) @ contents (nth2 (uartTxBuffer s) nUart) \<and>
           contents (nth2 (uartTxBuffer s2) nUart) = [] \<and>
           uartReadyTx s2 = upd2 (uartReadyTx s) nUart 1 \<and>
           uartBufferedTx s2 = upd2 (uartBufferedTx s) nUart 0)) \<and>
     (nth2 (uartBufferedTx s) nUart = 0 \<longrightarrow>
        uartTransmitService nUart s = Inr (s\<lparr>uartReadyTx := upd2 (uartReadyTx s) nUart 1\<rparr>))"
proof -
  let ?cs = "contents (nth2 (uartTxBuffer s) nUart)"
  have last: "\<exists>s2. transmit_events (Suc (length ?cs)) nUart s = Inr s2 \<and>
           UDR_sent (usart_of nUart s2) = UDR_sent (usart_of nUart s) @ ?cs \<and>
           contents (nth2 (uartTxBuffer s2) nUart) = [] \<and>
           uartReadyTx s2 = upd2 (uartReadyTx s) nUart 1 \<and>
           uartBufferedTx s2 = upd2 (uartBufferedTx s) nUart 0"
    if ok: "buf_ok (nth2 (uartTxBuffer s) nUart)" and buffered: "nth2 (uartBufferedTx s) nUart \<noteq> 0"
  proof -
    from tx_events_prefix [OF n ok buffered, of "length ?cs"] obtain s1 where
      s1: "transmit_events (length ?cs) nUart s = Inr s1"
      "UDR_sent (usart_of nUart s1) = UDR_sent (usart_of nUart s) @ ?cs"
      "contents (nth2 (uartTxBuffer s1) nUart) = []"
      "uartReadyTx s1 = uartReadyTx s" "uartBufferedTx s1 = uartBufferedTx s"
      by auto
    from s1(3) have "length (contents (nth2 (uartTxBuffer s1) nUart)) = 0" by simp
    then have dl: "datalength (nth2 (uartTxBuffer s1) nUart) = 0"
      by (simp add: length_contents unat_eq_0)
    have "uartTransmitService nUart s1 =
            Inr (s1\<lparr>uartBufferedTx := upd2 (uartBufferedTx s1) nUart 0,
                    uartReadyTx := upd2 (uartReadyTx s1) nUart 1\<rparr>)"
      using n buffered dl s1(5) by (simp add: uartTransmitService_def)
    then show ?thesis
      using s1 by (auto simp: transmit_events_Suc_end usart_of_def simp del: transmit_events.simps)
  qed
  have single: "uartTransmitService nUart s = Inr (s\<lparr>uartReadyTx := upd2 (uartReadyTx s) nUart 1\<rparr>)"
    if "nth2 (uartBufferedTx s) nUart = 0"
    using that n by (simp add: uartTransmitService_def)
  show ?thesis
    using tx_events_prefix [OF n, of s] last single by blast
qed

theorem transmit_drains_fifo_witness:
  "(\<exists>s1. transmit_events 2 0 (demo_state\<lparr>uartBufferedTx := (1, 0), uartReadyTx := (0, 1)\<rparr>) = Inr s1 \<and>
      UDR_sent (usart0 s1) = [0x61, 0x62] \<and> uartReadyTx s1 = (0, 1) \<and>
      uartBufferedTx s1 = (1, 0)) \<and>
   (\<exists>s2. transmit_events 4 0 (demo_state\<lparr>uartBufferedTx := (1, 0), uartReadyTx := (0, 1)\<rparr>) = Inr s2 \<and>
      UDR_sent (usart0 s2) = [0x61, 0x62, 0x63] \<and> uartReadyTx s2 = (1, 1) \<and>
      uartBufferedTx s2 = (0, 0)) \<and>
   uartTransmitService 1 (demo_state\<lparr>uartReadyTx := (0, 0)\<rparr>) =
     Inr (demo_state\<lparr>uartReadyTx := (0, 1)\<rparr>)"
proof -
  let ?s = "demo_state\<lparr>uartBufferedTx := (1, 0), uartReadyTx := (0, 1)\<rparr>"
  let ?t = "demo_state\<lparr>uartReadyTx := (0, 0)\<rparr>"
  have pre: "buf_ok (nth2 (uartTxBuffer ?s) 0) \<and> nth2 (uartBufferedTx ?s) 0 \<noteq> 0"
    by (simp add: demo_state_def nth2_def buf_ok_demo_buffer)
  have cs: "contents (nth2 (uartTxBuffer demo_state) 0) = [0x61, 0x62, 0x63]"
    by (simp add: demo_state_def nth2_def contents_demo_buffer)
  have sent: "UDR_sent (usart0 demo_state) = []"
    by (simp add: demo_state_def demo_usart_def)
  have single: "nth2 (uartBufferedTx ?t) 1 = 0" "upd2 (uartReadyTx ?t) 1 1 = (0, 1)"
    by (simp_all add: demo_state_def nth2_def upd2_def)
  have of0: "usart_of 0 x = usart0 x" for x
    by (simp add: usart_of_def)
  from transmit_drains_fifo [of 0 ?s] pre
  have prefix: "\<And>j. j \<le> length (contents (nth2 (uartTxBuffer ?s) 0)) \<Longrightarrow>
           (\<exists>s1. transmit_events j 0 ?s = Inr s1 \<and>
              UDR_sent (usart_of 0 s1) =
                UDR_sent (usart_of 0 ?s) @ take j (contents (nth2 (uartTxBuffer ?s) 0)) \<and>
              contents (nth2 (uartTxBuffer s1) 0) = drop j (contents (nth2 (uartTxBuffer ?s) 0)) \<and>
              uartReadyTx s1 = uartReadyTx ?s \<and> uartBufferedTx s1 = uartBufferedTx ?s)"
    and drained: "\<exists>s2. transmit_events (Suc (length (contents (nth2 (uartTxBuffer ?s) 0)))) 0 ?s
                = Inr s2 \<and>
           UDR_sent (usart_of 0 s2) = UDR_sent (usart_of 0 ?s) @ contents (nth2 (uartTxBuffer ?s) 0) \<and>
           contents (nth2 (uartTxBuffer s2) 0) = [] \<and>
           uartReadyTx s2 = upd2 (uartReadyTx ?s) 0 1 \<and>
           uartBufferedTx s2 = upd2 (uartBufferedTx ?s) 0 0"
    by simp_all
  have "\<exists>s1. transmit_events 2 0 ?s = Inr s1 \<and> UDR_sent (usart0 s1) = [0x61, 0x62] \<and>
          uartReadyTx s1 = (0, 1) \<and> uartBufferedTx s1 = (1, 0)"
    using prefix [of 2] by (simp add: cs sent of0) blast
  moreover have "\<exists>s2. transmit_events 4 0 ?s = Inr s2 \<and>
          UDR_sent (usart0 s2) = [0x61, 0x62, 0x63] \<and> uartReadyTx s2 = (1, 1) \<and>
          uartBufferedTx s2 = (0, 0)"
    using drained
    by (simp add: cs sent of0 upd2_def eval_nat_numeral del: transmit_events.simps) blast
  moreover have "uartTransmitService 1 ?t = Inr (demo_state\<lparr>uartReadyTx := (0, 1)\<rparr>)"
    using transmit_drains_fifo [of 1 ?t] single by simp
  ultimately show ?thesis by blast
qed

section \<open>Sending a block\<close>

lemma wait_UDRE_ready:
  "ucsra (k + d) AND BV UDRE \<noteq> 0 \<Longrightarrow> \<exists>m. wait_UDRE ucsra k = Some m"
proof (induction d arbitrary: k)
  case 0
  then show ?case by (subst wait_UDRE.simps) simp
next
  case (Suc d)
  then have "\<exists>m. wait_UDRE ucsra (Suc k) = Some m" by simp
  then show ?case by (subst wait_UDRE.simps) simp
qed

lemma upt_shift: "[p..<p + Suc k] = p # [Suc p..<Suc p + k]"
  by (simp add: upt_conv_Cons)

lemma send_loop_spec:
  "buf_ok b \<Longrightarrow>
   buf_ok (send_loop buffer p i nBytes b) \<and>
   size_b (send_loop buffer p i nBytes b) = size_b b \<and>
   contents (send_loop buffer p i nBytes b) =
     contents b @
     map buffer [p..<p + min (unat (nBytes - 1) - unat i)
                           (unat (size_b b) - unat (datalength b))]"
proof (induction buffer p i nBytes b rule: send_loop.induct)
  case (1 buffer p i nBytes b)
  show ?case
  proof (cases "i < nBytes - 1")
    case False
    then have "unat (nBytes - 1) - unat i = 0"
      by (simp add: word_less_nat_alt)
    with False "1.prems" show ?thesis
      by (subst (1 2 3) send_loop.simps) simp
  next
    case True
    let ?b1 = "snd (bufferAddToEnd b (buffer p))"
    from True have inc: "unat (i + 1) = Suc (unat i)" by unat_arith
    from True have "unat i < unat (nBytes - 1)" by (simp add: word_less_nat_alt)
    then obtain m where m: "unat (nBytes - 1) - unat i = Suc m"
      by (metis Suc_diff_Suc)
    then have m1: "unat (nBytes - 1) - Suc (unat i) = m" by simp
    have unfold: "send_loop buffer p i nBytes b = send_loop buffer (Suc p) (i + 1) nBytes ?b1"
      using True by (subst send_loop.simps) simp
    show ?thesis
    proof (cases "datalength b < size_b b")
      case room: True
      note push = push_aux [OF "1.prems" room, of "buffer p"]
      from room have "unat (datalength b) < unat (size_b b)" by (simp add: word_less_nat_alt)
      then obtain r where r: "unat (size_b b) - unat (datalength b) = Suc r"
        by (metis Suc_diff_Suc)
      from room have "unat (datalength b + 1) = Suc (unat (datalength b))" by unat_arith
      with r push(4,5) have r1: "unat (size_b ?b1) - unat (datalength ?b1) = r" by simp
      from "1.IH" [OF True push(1)] push(2,4) r1 m1 inc
      have "buf_ok (send_loop buffer (Suc p) (i + 1) nBytes ?b1) \<and>
            size_b (send_loop buffer (Suc p) (i + 1) nBytes ?b1) = size_b b \<and>
            contents (send_loop buffer (Suc p) (i + 1) nBytes ?b1) =
              (contents b @ [buffer p]) @ map buffer [Suc p..<Suc p + min m r]"
        by simp
      moreover have "[p..<p + min (Suc m) (Suc r)] = p # [Suc p..<Suc p + min m r]"
        by (simp only: min_Suc_Suc upt_shift)
      ultimately show ?thesis
        unfolding unfold m r by (simp del: upt_Suc)
    next
      case full: False
      then have same: "?b1 = b" by (simp add: bufferAddToEnd_full)
      from full have r: "unat (size_b b) - unat (datalength b) = 0"
        by (simp add: word_less_nat_alt)
      from "1.IH" [OF True] "1.prems" same r
      have "buf_ok (send_loop buffer (Suc p) (i + 1) nBytes ?b1) \<and>
            size_b (send_loop buffer (Suc p) (i + 1) nBytes ?b1) = size_b b \<and>
            contents (send_loop buffer (Suc p) (i + 1) nBytes ?b1) = contents b"
        by simp
      then show ?thesis
        unfolding unfold r by simp
    qed
  qed
qed


lemma uartSendByte_returns:
  assumes n: "nUart < 2"
    and ready: "UCSRA (usart_of nUart s) (UCSRA_reads (usart_of nUart s) + d) AND BV UDRE \<noteq> 0"
  shows "\<exists>s1. uartSendByte nUart c s = Some (Inr s1) \<and>
           uartTxBuffer s1 = uartTxBuffer s \<and> uartRxBuffer s1 = uartRxBuffer s \<and>
           uartBufferedTx s1 = uartBufferedTx s \<and>
           uartRxOverflow s1 = uartRxOverflow s \<and> UartRxFunc s1 = UartRxFunc s \<and>
           uartReadyTx s1 = upd2 (uartReadyTx s) nUart 0 \<and>
           UDR_sent (usart_of nUart s1) = UDR_sent (usart_of nUart s) @ [c]"
proof -
  from wait_UDRE_ready [of "UCSRA (usart_of nUart s)" "UCSRA_reads (usart_of nUart s)" d, OF ready]
  obtain m where
    m: "wait_UDRE (UCSRA (usart_of nUart s)) (UCSRA_reads (usart_of nUart s)) = Some m"
    by blast
  from n have "nUart = 0 \<or> nUart = 1" by (simp add: lt2_cases)
  then show ?thesis
  proof
    assume "nUart = 0"
    with m show ?thesis
      by (simp add: uartSendByte_def wait_and_outb_def usart_of_def)
  next
    assume "nUart = 1"
    with m show ?thesis
      by (simp add: uartSendByte_def wait_and_outb_def usart_of_def)
  qed
qed

text \<open>
  The busy-wait returns exactly when the hardware reports the data register empty at some
  later read; when it never does, \<open>uartSendByte\<close> does not return.
\<close>

lemma wait_UDRE_Some_ready:
  assumes "wait_UDRE ucsra k = Some m"
  shows "\<exists>j\<ge>k. ucsra j AND BV UDRE \<noteq> 0"
proof -
  have step: "\<exists>j\<ge>k. ucsra j AND BV UDRE \<noteq> 0"
    if ih: "\<And>ucsra k m. f ucsra k = Some m \<Longrightarrow> \<exists>j\<ge>k. ucsra j AND BV UDRE \<noteq> 0"
      and eq: "(if ucsra k AND BV UDRE = 0 then f ucsra (Suc k) else Some (Suc k)) = Some m"
    for f :: "(nat \<Rightarrow> u08) \<Rightarrow> nat \<Rightarrow> nat option" and ucsra k m
  proof (cases "ucsra k AND BV UDRE = 0")
    case True
    with eq have "f ucsra (Suc k) = Some m" by simp
    from ih [OF this] obtain j where "Suc k \<le> j" "ucsra j AND BV UDRE \<noteq> 0" by blast
    then show ?thesis by (intro exI [of _ j]) simp
  next
    case False
    then show ?thesis by blast
  qed
  show ?thesis
    by (rule wait_UDRE.raw_induct
        [where P = "\<lambda>ucsra k m. \<exists>j\<ge>k. ucsra j AND BV UDRE \<noteq> 0", OF step assms])
qed

lemma wait_UDRE_returns_iff:
  "(\<exists>m. wait_UDRE ucsra k = Some m) \<longleftrightarrow> (\<exists>j\<ge>k. ucsra j AND BV UDRE \<noteq> 0)"
proof
  assume "\<exists>m. wait_UDRE ucsra k = Some m"
  then show "\<exists>j\<ge>k. ucsra j AND BV UDRE \<noteq> 0"
    by (blast dest: wait_UDRE_Some_ready)
next
  assume "\<exists>j\<ge>k. ucsra j AND BV UDRE \<noteq> 0"
  then obtain j where "k \<le> j" "ucsra j AND BV UDRE \<noteq> 0" by blast
  then have "ucsra (k + (j - k)) AND BV UDRE \<noteq> 0" by simp
  then show "\<exists>m. wait_UDRE ucsra k = Some m" by (rule wait_UDRE_ready)
qed

lemma uartSendByte_hangs:
  assumes "\<forall>j\<ge>UCSRA_reads (usart_of nUart s). UCSRA (usart_of nUart s) j AND BV UDRE = 0"
  shows "uartSendByte nUart c s = None"
proof -
  from assms wait_UDRE_returns_iff [of "UCSRA (usart_of nUart s)" "UCSRA_reads (usart_of nUart s)"]
  have "wait_UDRE (UCSRA (usart_of nUart s)) (UCSRA_reads (usart_of nUart s)) = None"
    by (cases "wait_UDRE (UCSRA (usart_of nUart s)) (UCSRA_reads (usart_of nUart s))") auto
  then show ?thesis
    by (auto simp: uartSendByte_def wait_and_outb_def usart_of_def)
qed

lemma uartSendBuffer_failure:
  "nUart < 2 \<Longrightarrow>
   \<not> (datalength (nth2 (uartTxBuffer s) nUart) + nBytes < size_b (nth2 (uartTxBuffer s) nUart)
      \<and> nBytes \<noteq> 0) \<Longrightarrow>
   uartSendBuffer nUart buffer nBytes s = Some (Inr (0, s))"
  by (auto simp: uartSendBuffer_def)

lemma uartSendBuffer_accepts:
  assumes n: "nUart < 2" and ok: "buf_ok (nth2 (uartTxBuffer s) nUart)"
    and space: "datalength (nth2 (uartTxBuffer s) nUart) + nBytes < size_b (nth2 (uartTxBuffer s) nUart)"
    and nz: "nBytes \<noteq> 0"
    and ready: "UCSRA (usart_of nUart s) (UCSRA_reads (usart_of nUart s) + d) AND BV UDRE \<noteq> 0"
  shows "\<exists>s1. uartSendBuffer nUart buffer nBytes s = Some (Inr (1, s1)) \<and>
           buf_ok (nth2 (uartTxBuffer s1) nUart) \<and>
           contents (nth2 (uartTxBuffer s1) nUart) =
             contents (nth2 (uartTxBuffer s) nUart) @
             map buffer [1..<1 + min (unat nBytes - 1)
                                   (unat (size_b (nth2 (uartTxBuffer s) nUart)) -
                                    unat (datalength (nth2 (uartTxBuffer s) nUart)))] \<and>
           nth2 (uartBufferedTx s1) nUart = 1 \<and> nth2 (uartReadyTx s1) nUart = 0 \<and>
           UDR_sent (usart_of nUart s1) = UDR_sent (usart_of nUart s) @ [buffer 0]"
proof -
  let ?b = "nth2 (uartTxBuffer s) nUart"
  let ?b1 = "send_loop buffer 1 0 nBytes ?b"
  let ?s2 = "s\<lparr>uartTxBuffer := upd2 (uartTxBuffer s) nUart ?b1,
               uartBufferedTx := upd2 (uartBufferedTx s) nUart 1\<rparr>"
  from nz have nb: "unat (nBytes - 1) = unat nBytes - 1" by unat_arith
  from send_loop_spec [OF ok, of buffer 1 0 nBytes] nb
  have loop: "buf_ok ?b1"
    "contents ?b1 = contents ?b @
       map buffer [1..<1 + min (unat nBytes - 1) (unat (size_b ?b) - unat (datalength ?b))]"
    by simp_all
  have u: "usart_of nUart ?s2 = usart_of nUart s"
    by (simp add: usart_of_def)
  from ready have ready2:
    "UCSRA (usart_of nUart ?s2) (UCSRA_reads (usart_of nUart ?s2) + d) AND BV UDRE \<noteq> 0"
    by (auto simp: usart_of_def)
  from uartSendByte_returns [OF n ready2, of "buffer 0"] obtain s3 where
    s3: "uartSendByte nUart (buffer 0) ?s2 = Some (Inr s3)"
    "uartTxBuffer s3 = uartTxBuffer ?s2" "uartBufferedTx s3 = uartBufferedTx ?s2"
    "uartReadyTx s3 = upd2 (uartReadyTx ?s2) nUart 0"
    "UDR_sent (usart_of nUart s3) = UDR_sent (usart_of nUart ?s2) @ [buffer 0]"
    by blast
  have "uartSendBuffer nUart buffer nBytes s = Some (Inr (1, s3))"
    using n space nz s3(1) by (simp add: uartSendBuffer_def Let_def)
  moreover have "nth2 (uartTxBuffer s3) nUart = ?b1"
    using s3(2) by (simp add: nth2_upd2_same)
  moreover have "nth2 (uartBufferedTx s3) nUart = 1" "nth2 (uartReadyTx s3) nUart = 0"
    using s3(3,4) by (simp_all add: nth2_upd2_same)
  moreover have "UDR_sent (usart_of nUart s3) = UDR_sent (usart_of nUart s) @ [buffer 0]"
    using s3(5) by (auto simp: usart_of_def)
  ultimately show ?thesis
    using loop by simp
qed

text \<open>
  Where the 16-bit sum does not wrap, the call behaves as a block send should, provided
  the hardware reports its data register empty at some read: it returns 1 exactly when
  occupancy + n < capacity and n > 0, then the bytes \<open>buffer[1..n-1]\<close> are queued behind
  the old ones, \<open>buffer[0]\<close> is written to the data register and the occupancy has grown
  by n - 1; otherwise it returns 0 and the state is unchanged.
\<close>

lemma sum_without_wrap:
  "unat (a :: u16) + unat (n :: u16) < 2 ^ 16 \<Longrightarrow>
   a + n < c \<longleftrightarrow> unat a + unat n < unat c"
  by (simp add: word_less_nat_alt unat_word_ariths)

lemma uartSendBuffer_without_wrap:
  assumes n: "nUart < 2" and ok: "buf_ok (nth2 (uartTxBuffer s) nUart)"
    and nowrap: "unat (datalength (nth2 (uartTxBuffer s) nUart)) + unat nBytes < 2 ^ 16"
    and ready: "UCSRA (usart_of nUart s) (UCSRA_reads (usart_of nUart s) + d) AND BV UDRE \<noteq> 0"
  shows "(unat (datalength (nth2 (uartTxBuffer s) nUart)) + unat nBytes
            < unat (size_b (nth2 (uartTxBuffer s) nUart)) \<and> 0 < unat nBytes \<longrightarrow>
          (\<exists>s1. uartSendBuffer nUart buffer nBytes s = Some (Inr (1, s1)) \<and>
             contents (nth2 (uartTxBuffer s1) nUart) =
               contents (nth2 (uartTxBuffer s) nUart) @ map buffer [1..<unat nBytes] \<and>
             unat (datalength (nth2 (uartTxBuffer s1) nUart)) =
               unat (datalength (nth2 (uartTxBuffer s) nUart)) + unat nBytes - 1 \<and>
             nth2 (uartBufferedTx s1) nUart = 1 \<and> nth2 (uartReadyTx s1) nUart = 0 \<and>
             UDR_sent (usart_of nUart s1) = UDR_sent (usart_of nUart s) @ [buffer 0])) \<and>
         (\<not> (unat (datalength (nth2 (uartTxBuffer s) nUart)) + unat nBytes
            < unat (size_b (nth2 (uartTxBuffer s) nUart)) \<and> 0 < unat nBytes) \<longrightarrow>
          uartSendBuffer nUart buffer nBytes s = Some (Inr (0, s)))"
proof -
  let ?b = "nth2 (uartTxBuffer s) nUart"
  note cond = sum_without_wrap [OF nowrap, of "size_b ?b"]
  have fail: "uartSendBuffer nUart buffer nBytes s = Some (Inr (0, s))"
    if "\<not> (unat (datalength ?b) + unat nBytes < unat (size_b ?b) \<and> 0 < unat nBytes)"
    using that cond n by (intro uartSendBuffer_failure) (auto simp: unat_gt_0)
  have succeed: "\<exists>s1. uartSendBuffer nUart buffer nBytes s = Some (Inr (1, s1)) \<and>
             contents (nth2 (uartTxBuffer s1) nUart) = contents ?b @ map buffer [1..<unat nBytes] \<and>
             unat (datalength (nth2 (uartTxBuffer s1) nUart)) =
               unat (datalength ?b) + unat nBytes - 1 \<and>
             nth2 (uartBufferedTx s1) nUart = 1 \<and> nth2 (uartReadyTx s1) nUart = 0 \<and>
             UDR_sent (usart_of nUart s1) = UDR_sent (usart_of nUart s) @ [buffer 0]"
    if space: "unat (datalength ?b) + unat nBytes < unat (size_b ?b)" and pos: "0 < unat nBytes"
  proof -
    from space cond have c: "datalength ?b + nBytes < size_b ?b" by simp
    from pos have nz: "nBytes \<noteq> 0" by (simp add: unat_gt_0)
    from space pos have m: "min (unat nBytes - 1) (unat (size_b ?b) - unat (datalength ?b))
        = unat nBytes - 1" by simp
    from pos have up: "1 + (unat nBytes - 1) = unat nBytes" by simp
    from uartSendBuffer_accepts [OF n ok c nz ready, of buffer] obtain s1 where
      s1: "uartSendBuffer nUart buffer nBytes s = Some (Inr (1, s1))"
      "contents (nth2 (uartTxBuffer s1) nUart) = contents ?b @ map buffer [1..<unat nBytes]"
      "nth2 (uartBufferedTx s1) nUart = 1" "nth2 (uartReadyTx s1) nUart = 0"
      "UDR_sent (usart_of nUart s1) = UDR_sent (usart_of nUart s) @ [buffer 0]"
      unfolding m up by blast
    from s1(2) have "length (contents (nth2 (uartTxBuffer s1) nUart)) =
        length (contents ?b) + (unat nBytes - 1)" by simp
    then have "unat (datalength (nth2 (uartTxBuffer s1) nUart)) =
        unat (datalength ?b) + unat nBytes - 1"
      using pos by (simp add: length_contents)
    with s1 show ?thesis by blast
  qed
  from fail succeed show ?thesis by blast
qed

lemma demo_usart_ready:
  "UCSRA (usart_of 0 demo_state) (UCSRA_reads (usart_of 0 demo_state) + 2) AND BV UDRE \<noteq> 0"
  by (simp add: usart_of_def demo_state_def demo_usart_def BV_def UDRE_def)

text \<open>
  The boundary of the headroom check: with capacity 8 and occupancy 3, a block of 4 bytes
  is accepted, a block of 5 bytes and an empty block are refused with the state unchanged.
\<close>

lemma send_buffer_boundary:
  "(\<exists>s1. uartSendBuffer 0 buffer 4 demo_state = Some (Inr (1, s1)) \<and>
      contents (nth2 (uartTxBuffer s1) 0) = [0x61, 0x62, 0x63, buffer 1, buffer 2, buffer 3] \<and>
      UDR_sent (usart0 s1) = [buffer 0]) \<and>
   uartSendBuffer 0 buffer 5 demo_state = Some (Inr (0, demo_state)) \<and>
   uartSendBuffer 0 buffer 0 demo_state = Some (Inr (0, demo_state))"
proof -
  have tx: "nth2 (uartTxBuffer demo_state) 0 = demo_buffer"
    by (simp add: demo_state_def nth2_def)
  have sent: "UDR_sent (usart0 demo_state) = []"
    by (simp add: demo_state_def demo_usart_def)
  have pre: "(0 :: u08) < 2" "buf_ok (nth2 (uartTxBuffer demo_state) 0)"
    by (simp_all add: tx buf_ok_demo_buffer)
  have nowrap: "unat (datalength (nth2 (uartTxBuffer demo_state) 0)) + unat (n :: u16) < 2 ^ 16"
    if "unat n < 6" for n
    using that by (simp add: tx demo_buffer_def)
  have fields: "datalength demo_buffer = 3" "size_b demo_buffer = 8"
    by (simp_all add: demo_buffer_def)
  have four: "[1..<unat (4 :: u16)] = [1, 2, 3]"
    by (simp add: upt_conv_Cons)
  from uartSendBuffer_without_wrap [OF pre nowrap demo_usart_ready, of 4 buffer]
  have a: "\<exists>s1. uartSendBuffer 0 buffer 4 demo_state = Some (Inr (1, s1)) \<and>
      contents (nth2 (uartTxBuffer s1) 0) = [0x61, 0x62, 0x63, buffer 1, buffer 2, buffer 3] \<and>
      UDR_sent (usart0 s1) = [buffer 0]"
    unfolding four by (auto simp: tx contents_demo_buffer usart_of_def sent fields)
  from uartSendBuffer_without_wrap [OF pre nowrap demo_usart_ready, of 5 buffer]
  have b: "uartSendBuffer 0 buffer 5 demo_state = Some (Inr (0, demo_state))"
    by (simp add: tx fields)
  from uartSendBuffer_without_wrap [OF pre nowrap demo_usart_ready, of 0 buffer]
  have c: "uartSendBuffer 0 buffer 0 demo_state = Some (Inr (0, demo_state))"
    by (simp add: tx fields)
  from a b c show ?thesis by blast
qed

text \<open>
  C1, the failing input. The headroom check adds \<open>datalength\<close> and \<open>nBytes\<close> in 16
  bits. With capacity 8, occupancy 3 and \<open>nBytes\<close> = 65535 the sum wraps to 2, which is
  below 8: \<open>uartSendBuffer\<close> returns 1 although 3 + 65535 is not below 8.
\<close>

theorem send_buffer_accepts_on_wrap:
  "datalength (nth2 (uartTxBuffer demo_state) 0) = 3 \<and>
   size_b (nth2 (uartTxBuffer demo_state) 0) = 8 \<and>
   \<not> unat (3 :: u16) + unat (0xFFFF :: u16) < unat (8 :: u16) \<and>
   map_option (map_sum id fst) (uartSendBuffer 0 (\<lambda>i. of_nat i) 0xFFFF demo_state) =
     Some (Inr 1)"
proof -
  have tx: "nth2 (uartTxBuffer demo_state) 0 = demo_buffer"
    by (simp add: demo_state_def nth2_def)
  have "datalength demo_buffer + 0xFFFF < size_b demo_buffer"
    by (simp add: demo_buffer_def)
  with uartSendBuffer_accepts [of 0 demo_state "0xFFFF" 2 "\<lambda>i. of_nat i"] demo_usart_ready
  obtain s1 where "uartSendBuffer 0 (\<lambda>i. of_nat i) 0xFFFF demo_state = Some (Inr (1, s1))"
    by (auto simp: tx buf_ok_demo_buffer)
  then show ?thesis
    by (simp add: tx demo_buffer_def)
qed

text \<open>
  C2, the failing input. The same call returns 1 and leaves the transmit buffer full:
  only the five bytes \<open>buffer[1..5]\<close> were queued behind the three old ones, and the
  occupancy is 8, where occupancy + n - 1 would be 65537.
\<close>

theorem send_buffer_drops_bytes_on_wrap:
  "(case uartSendBuffer 0 (\<lambda>i. of_nat i) 0xFFFF demo_state of
      Some (Inr (r, s1)) \<Rightarrow>
        r = 1 \<and>
        contents (nth2 (uartTxBuffer s1) 0) = [0x61, 0x62, 0x63, 1, 2, 3, 4, 5] \<and>
        unat (datalength (nth2 (uartTxBuffer s1) 0)) = 8
    | _ \<Rightarrow> False) \<and>
   unat (datalength (nth2 (uartTxBuffer demo_state) 0)) + unat (0xFFFF :: u16) - 1 = 65537"
proof -
  have tx: "nth2 (uartTxBuffer demo_state) 0 = demo_buffer"
    by (simp add: demo_state_def nth2_def)
  have space: "datalength demo_buffer + 0xFFFF < size_b demo_buffer"
    by (simp add: demo_buffer_def)
  have five: "min (unat (0xFFFF :: u16) - 1) (unat (size_b demo_buffer) - unat (datalength demo_buffer)) = 5"
    by (simp add: demo_buffer_def)
  have bytes: "map (\<lambda>i. of_nat i) [1..<1 + 5] = [1, 2, 3, 4, 5 :: u08]"
    by (simp add: upt_conv_Cons)
  from uartSendBuffer_accepts [of 0 demo_state "0xFFFF" 2 "\<lambda>i. of_nat i"] demo_usart_ready space
  obtain s1 where s1: "uartSendBuffer 0 (\<lambda>i. of_nat i) 0xFFFF demo_state = Some (Inr (1, s1))"
    "contents (nth2 (uartTxBuffer s1) 0) = contents demo_buffer @ map (\<lambda>i. of_nat i) [1..<1 + 5]"
    unfolding tx five by (auto simp: buf_ok_demo_buffer)
  from s1(2) have c: "contents (nth2 (uartTxBuffer s1) 0) = [0x61, 0x62, 0x63, 1, 2, 3, 4, 5]"
    unfolding bytes by (simp add: contents_demo_buffer)
  then have "length (contents (nth2 (uartTxBuffer s1) 0)) = 8" by simp
  then have "unat (datalength (nth2 (uartTxBuffer s1) 0)) = 8"
    by (simp add: length_contents)
  with s1(1) c show ?thesis
    by (simp add: tx demo_buffer_def)
qed

section \<open>The overflow counter\<close>

lemma overflow_uartSetBaudRate:
  "uartSetBaudRate cfg nUart baudrate s = Inr s1 \<Longrightarrow> uartRxOverflow s1 = uartRxOverflow s"
  by (auto simp: uartSetBaudRate_def Let_def split: if_splits)

lemma overflow_uart0Init:
  "uart0Init cfg s = Inr s1 \<Longrightarrow> uartRxOverflow s1 = upd2 (uartRxOverflow s) 0 0"
  by (auto simp: uart0Init_def uart0InitBuffers_def Let_def
      dest!: overflow_uartSetBaudRate split: sum.splits)

lemma overflow_uart1Init:
  "uart1Init cfg s = Inr s1 \<Longrightarrow> uartRxOverflow s1 = upd2 (uartRxOverflow s) 1 0"
  by (auto simp: uart1Init_def uart1InitBuffers_def Let_def
      dest!: overflow_uartSetBaudRate split: sum.splits)

lemma overflow_uartInit:
  "uartInit cfg s = Inr s1 \<Longrightarrow> uartRxOverflow s1 = (0, 0)"
  by (auto simp: uartInit_def upd2_def dest!: overflow_uart0Init overflow_uart1Init
      split: sum.splits)

lemma overflow_uartSendByte:
  "uartSendByte nUart c s = Some (Inr s1) \<Longrightarrow> uartRxOverflow s1 = uartRxOverflow s"
  by (auto simp: uartSendByte_def wait_and_outb_def split: option.splits if_splits)

lemma overflow_uartReceiveByte:
  "uartReceiveByte nUart d s = Inr (r, c, s1) \<Longrightarrow> uartRxOverflow s1 = uartRxOverflow s"
  by (auto simp: uartReceiveByte_def split: option.splits if_splits)

lemma overflow_uart0GetByte:
  "uart0GetByte d s = Inr (r, s1) \<Longrightarrow> uartRxOverflow s1 = uartRxOverflow s"
  by (auto simp: uart0GetByte_def dest!: overflow_uartReceiveByte split: sum.splits if_splits)

lemma overflow_uart1GetByte:
  "uart1GetByte d s = Inr (r, s1) \<Longrightarrow> uartRxOverflow s1 = uartRxOverflow s"
  by (auto simp: uart1GetByte_def dest!: overflow_uartReceiveByte split: sum.splits if_splits)

lemma overflow_uartFlushReceiveBuffer:
  "uartFlushReceiveBuffer nUart s = Inr s1 \<Longrightarrow> uartRxOverflow s1 = uartRxOverflow s"
  by (auto simp: uartFlushReceiveBuffer_def split: if_splits)

lemma overflow_uartAddToTxBuffer:
  "uartAddToTxBuffer nUart c s = Inr s1 \<Longrightarrow> uartRxOverflow s1 = uartRxOverflow s"
  by (auto simp: uartAddToTxBuffer_def split: if_splits)

lemma overflow_uartSendTxBuffer:
  "uartSendTxBuffer nUart s = Some (Inr s1) \<Longrightarrow> uartRxOverflow s1 = uartRxOverflow s"
  by (auto simp: uartSendTxBuffer_def Let_def dest!: overflow_uartSendByte
      split: option.splits if_splits)

lemma overflow_uartSendBuffer:
  "uartSendBuffer nUart buffer nBytes s = Some (Inr (r, s1)) \<Longrightarrow>
   uartRxOverflow s1 = uartRxOverflow s"
  by (auto simp: uartSendBuffer_def Let_def dest!: overflow_uartSendByte
      split: option.splits sum.splits if_splits)

lemma overflow_uartTransmitService:
  "uartTransmitService nUart s = Inr s1 \<Longrightarrow> uartRxOverflow s1 = uartRxOverflow s"
  by (auto simp: uartTransmitService_def split: option.splits if_splits)

lemma overflow_uartReceiveService:
  assumes run: "\<forall>f c t. uartRxOverflow (run f c t) = uartRxOverflow t"
    and step: "uartReceiveService run nUart s = Inr s1"
  shows "uartRxOverflow s1 = uartRxOverflow s \<or>
         nUart < 2 \<and> nth2 (UartRxFunc s) nUart = 0 \<and>
         \<not> datalength (nth2 (uartRxBuffer s) nUart) < size_b (nth2 (uartRxBuffer s) nUart) \<and>
         uartRxOverflow s1 = upd2 (uartRxOverflow s) nUart (nth2 (uartRxOverflow s) nUart + 1)"
  using step run
  by (auto simp: uartReceiveService_def Let_def bufferAddToEnd_def split: if_splits)

lemma word16_inc_le:
  assumes "(x :: u16) \<noteq> 0xFFFF"
  shows "x \<le> x + 1"
proof -
  from assms have "unat x \<noteq> unat (0xFFFF :: u16)"
    by (simp only: word_unat_eq_iff not_False_eq_True)
  moreover have "unat x < 2 ^ 16"
    using unsigned_less [of x] by simp
  ultimately have "unat x + unat (1 :: u16) < 2 ^ 16" by simp
  then have "unat (x + 1) = unat x + unat (1 :: u16)"
    using unat_add_lem [of x 1] by simp
  then show ?thesis by (simp add: word_le_nat_alt)
qed

lemma overflow_after_uartSendBuffer:
  assumes "map_option drop_result (uartSendBuffer m buffer nBytes s) = Some (Inr s1)"
  shows "uartRxOverflow s1 = uartRxOverflow s"
proof -
  from assms obtain z where z: "uartSendBuffer m buffer nBytes s = Some z" "drop_result z = Inr s1"
    by auto
  from z(2) obtain r where "z = Inr (r, s1)"
    by (cases z) (auto simp: drop_result_def)
  with z(1) show ?thesis by (auto dest: overflow_uartSendBuffer)
qed

lemma demo_run_keeps_overflow: "\<forall>f c t. uartRxOverflow (demo_run f c t) = uartRxOverflow t"
  by (simp add: demo_run_def)

text \<open>
  C9, as amended. For every valid channel n and every function of the driver that
  returns (user receive functions are assumed not to write the counter):
  a call that initialises channel n (\<open>uartInit\<close>, \<open>uart0Init\<close> for channel 0,
  \<open>uart1Init\<close> for channel 1) leaves \<open>uartRxOverflow[n]\<close> at 0;
  every other call leaves it unchanged, except a receive-complete event of channel n
  with no user function installed and a full receive buffer, which adds 1 to it in 16-bit
  unsigned arithmetic;
  so no call other than initialisation decreases the counter as long as it is below
  65535. (At 65535 the next failed push wraps it to 0: the counterexample below.)
\<close>

theorem overflow_count_written_by_init_and_failed_push:
  assumes run: "\<forall>f c t. uartRxOverflow (run f c t) = uartRxOverflow t"
    and step: "state_after cfg run op s = Some (Inr s1)"
    and n: "n < 2"
  shows
    "(initialises op n \<longrightarrow> nth2 (uartRxOverflow s1) n = 0) \<and>
     (\<not> initialises op n \<longrightarrow>
        nth2 (uartRxOverflow s1) n = nth2 (uartRxOverflow s) n \<or>
        receives_on op n \<and> nth2 (UartRxFunc s) n = 0 \<and>
        \<not> datalength (nth2 (uartRxBuffer s) n) < size_b (nth2 (uartRxBuffer s) n) \<and>
        nth2 (uartRxOverflow s1) n = nth2 (uartRxOverflow s) n + 1) \<and>
     (\<not> initialises op n \<and> nth2 (uartRxOverflow s) n \<noteq> 0xFFFF \<longrightarrow>
        nth2 (uartRxOverflow s) n \<le> nth2 (uartRxOverflow s1) n)"
proof -
  from n have n01: "n = 0 \<or> n = 1" by (simp add: lt2_cases)
  have recv: "nth2 (uartRxOverflow s1) n = nth2 (uartRxOverflow s) n \<or>
        m = n \<and> nth2 (UartRxFunc s) n = 0 \<and>
        \<not> datalength (nth2 (uartRxBuffer s) n) < size_b (nth2 (uartRxBuffer s) n) \<and>
        nth2 (uartRxOverflow s1) n = nth2 (uartRxOverflow s) n + 1"
    if "uartReceiveService run m s = Inr s1" for m
    using overflow_uartReceiveService [OF run that] n
    by (cases "m = n") (auto simp: nth2_upd2_same nth2_upd2_other)
  have main: "(initialises op n \<longrightarrow> nth2 (uartRxOverflow s1) n = 0) \<and>
     (\<not> initialises op n \<longrightarrow>
        nth2 (uartRxOverflow s1) n = nth2 (uartRxOverflow s) n \<or>
        receives_on op n \<and> nth2 (UartRxFunc s) n = 0 \<and>
        \<not> datalength (nth2 (uartRxBuffer s) n) < size_b (nth2 (uartRxBuffer s) n) \<and>
        nth2 (uartRxOverflow s1) n = nth2 (uartRxOverflow s) n + 1)"
  proof (cases op)
    case Call_uartInit
    with step show ?thesis
      by (auto simp: nth2_def dest!: overflow_uartInit)
  next
    case Call_uart0Init
    with step n01 show ?thesis
      by (auto simp: nth2_def upd2_def dest!: overflow_uart0Init)
  next
    case Call_uart1Init
    with step n01 show ?thesis
      by (auto simp: nth2_def upd2_def dest!: overflow_uart1Init)
  next
    case Call_uart0InitBuffers
    with step show ?thesis by (auto simp: uart0InitBuffers_def Let_def)
  next
    case Call_uart1InitBuffers
    with step show ?thesis by (auto simp: uart1InitBuffers_def Let_def)
  next
    case (Call_uartSetRxHandler m f)
    with step show ?thesis by (auto simp: uartSetRxHandler_def)
  next
    case (Call_uartSetBaudRate m baudrate)
    with step show ?thesis by (auto dest!: overflow_uartSetBaudRate)
  next
    case (Call_uartGetRxBuffer m)
    with step show ?thesis by auto
  next
    case (Call_uartGetTxBuffer m)
    with step show ?thesis by auto
  next
    case (Call_uartSendByte m c)
    with step show ?thesis by (auto dest!: overflow_uartSendByte)
  next
    case (Call_uart0SendByte c)
    with step show ?thesis by (auto simp: uart0SendByte_def dest!: overflow_uartSendByte)
  next
    case (Call_uart1SendByte c)
    with step show ?thesis by (auto simp: uart1SendByte_def dest!: overflow_uartSendByte)
  next
    case (Call_uart0GetByte c)
    with step show ?thesis
      by (auto simp: drop_result_def dest!: overflow_uart0GetByte split: sum.splits)
  next
    case (Call_uart1GetByte c)
    with step show ?thesis
      by (auto simp: drop_result_def dest!: overflow_uart1GetByte split: sum.splits)
  next
    case (Call_uartReceiveByte m c)
    with step show ?thesis
      by (auto dest!: overflow_uartReceiveByte split: sum.splits)
  next
    case (Call_uartFlushReceiveBuffer m)
    with step show ?thesis by (auto dest!: overflow_uartFlushReceiveBuffer)
  next
    case (Call_uartReceiveBufferIsEmpty m)
    with step show ?thesis by (auto simp: keep_state_def split: sum.splits)
  next
    case (Call_uartTransmitPending m)
    with step show ?thesis by (auto simp: keep_state_def split: sum.splits)
  next
    case (Call_uartAddToTxBuffer m c)
    with step show ?thesis by (auto dest!: overflow_uartAddToTxBuffer)
  next
    case (Call_uart0AddToTxBuffer c)
    with step show ?thesis
      by (auto simp: uart0AddToTxBuffer_def dest!: overflow_uartAddToTxBuffer)
  next
    case (Call_uart1AddToTxBuffer c)
    with step show ?thesis
      by (auto simp: uart1AddToTxBuffer_def dest!: overflow_uartAddToTxBuffer)
  next
    case (Call_uartSendTxBuffer m)
    with step show ?thesis by (auto dest!: overflow_uartSendTxBuffer)
  next
    case (Call_uartSendBuffer m buffer nBytes)
    with step have "map_option drop_result (uartSendBuffer m buffer nBytes s) = Some (Inr s1)"
      by simp
    from overflow_after_uartSendBuffer [OF this] Call_uartSendBuffer show ?thesis
      by simp
  next
    case (Call_uartTransmitService m)
    with step show ?thesis by (auto dest!: overflow_uartTransmitService)
  next
    case (Call_uartReceiveService m)
    with step recv [of m] show ?thesis by auto
  next
    case Int_SIG_UART0_TRANS
    with step show ?thesis
      by (auto simp: SIG_UART0_TRANS_def dest!: overflow_uartTransmitService)
  next
    case Int_SIG_UART1_TRANS
    with step show ?thesis
      by (auto simp: SIG_UART1_TRANS_def dest!: overflow_uartTransmitService)
  next
    case Int_SIG_UART0_RECV
    with step recv [of 0] show ?thesis by (auto simp: SIG_UART0_RECV_def)
  next
    case Int_SIG_UART1_RECV
    with step recv [of 1] show ?thesis by (auto simp: SIG_UART1_RECV_def)
  qed
  moreover have "nth2 (uartRxOverflow s) n \<le> nth2 (uartRxOverflow s1) n"
    if "\<not> initialises op n" and "nth2 (uartRxOverflow s) n \<noteq> 0xFFFF"
    using main that word16_inc_le [of "nth2 (uartRxOverflow s) n"] by auto
  ultimately show ?thesis by blast
qed

theorem overflow_count_written_by_init_and_failed_push_witness:
  "(\<exists>s1. state_after demo_config demo_run Int_SIG_UART1_RECV (byte_arrives 1 0x41 demo_state)
           = Some (Inr s1) \<and>
      nth2 (uartRxOverflow s1) 1 = 1 \<and>
      nth2 (uartRxOverflow (byte_arrives 1 0x41 demo_state)) 1 \<le> nth2 (uartRxOverflow s1) 1) \<and>
   (\<exists>s2. state_after demo_config demo_run Call_uart1Init (demo_state\<lparr>uartRxOverflow := (7, 9)\<rparr>)
           = Some (Inr s2) \<and>
      nth2 (uartRxOverflow s2) 1 = 0 \<and> nth2 (uartRxOverflow s2) 0 = 7)"
proof -
  let ?s = "byte_arrives 1 0x41 demo_state"
  let ?t = "demo_state\<lparr>uartRxOverflow := (7, 9)\<rparr>"
  have one: "(1 :: u08) < 2" and zero: "(0 :: u08) < 2" by simp_all
  obtain s1 where s1: "state_after demo_config demo_run Int_SIG_UART1_RECV ?s = Some (Inr s1)"
    by (simp add: SIG_UART1_RECV_def uartReceiveService_def byte_arrives_def demo_state_def
        nth2_def full_buffer_def bufferAddToEnd_def Let_def)
  have old: "nth2 (uartRxOverflow ?s) 1 = 0" "nth2 (uartRxOverflow ?s) 1 \<noteq> 0xFFFF"
    by (simp_all add: byte_arrives_def demo_state_def nth2_def)
  have full: "\<not> datalength (nth2 (uartRxBuffer ?s) 1) < size_b (nth2 (uartRxBuffer ?s) 1)"
    by (simp add: byte_arrives_def demo_state_def nth2_def full_buffer_def)
  have changed: "nth2 (uartRxOverflow s1) 1 \<noteq> nth2 (uartRxOverflow ?s) 1"
    using s1
    by (auto simp: SIG_UART1_RECV_def uartReceiveService_def byte_arrives_def demo_state_def
        nth2_def upd2_def full_buffer_def bufferAddToEnd_def Let_def)
  from overflow_count_written_by_init_and_failed_push [OF demo_run_keeps_overflow s1 one]
    old changed
  have a: "nth2 (uartRxOverflow s1) 1 = 1 \<and>
      nth2 (uartRxOverflow ?s) 1 \<le> nth2 (uartRxOverflow s1) 1"
    by simp
  obtain s2 where s2: "state_after demo_config demo_run Call_uart1Init ?t = Some (Inr s2)"
    by (simp add: uart1Init_def uartSetBaudRate_def demo_config_def Let_def)
  from overflow_count_written_by_init_and_failed_push [OF demo_run_keeps_overflow s2 one]
    overflow_count_written_by_init_and_failed_push [OF demo_run_keeps_overflow s2 zero]
  have b: "nth2 (uartRxOverflow s2) 1 = 0 \<and> nth2 (uartRxOverflow s2) 0 = 7"
    by (simp add: demo_state_def nth2_def)
  from s1 a s2 b show ?thesis by blast
qed

text \<open>
  C9 as stated fails: with the counter of channel 1 at 65535, a full receive buffer and no
  user function, one receive-complete event leaves the counter at 0, which is less. The
  state is reachable: 65535 bytes arriving on the full buffer of \<open>demo_state\<close> bring
  the counter from 0 to 65535.
\<close>

theorem overflow_count_wraps_counterexample:
  "uartReceiveService demo_run 1
     (byte_arrives 1 0x41 (demo_state\<lparr>uartRxOverflow := (0, 0xFFFF)\<rparr>)) =
     Inr ((byte_arrives 1 0x41 (demo_state\<lparr>uartRxOverflow := (0, 0xFFFF)\<rparr>))
            \<lparr>uartRxOverflow := (0, 0)\<rparr>) \<and>
   (0 :: u16) < 0xFFFF \<and>
   (case receive_events demo_run 1 (replicate 65535 0x41) demo_state of
      Inl e \<Rightarrow> False
    | Inr s1 \<Rightarrow> nth2 (uartRxOverflow s1) 1 = 0xFFFF)"
proof -
  have step: "uartReceiveService demo_run 1
     (byte_arrives 1 0x41 (demo_state\<lparr>uartRxOverflow := (0, 0xFFFF)\<rparr>)) =
     Inr ((byte_arrives 1 0x41 (demo_state\<lparr>uartRxOverflow := (0, 0xFFFF)\<rparr>))
            \<lparr>uartRxOverflow := (0, 0)\<rparr>)"
    by (simp add: uartReceiveService_def byte_arrives_def demo_state_def
        nth2_def upd2_def full_buffer_def bufferAddToEnd_def Let_def)
  have pre: "(1 :: u08) < 2" "nth2 (UartRxFunc demo_state) 1 = 0"
    "buf_ok (nth2 (uartRxBuffer demo_state) 1)"
    by (simp_all add: demo_state_def nth2_def buf_ok_full_buffer)
  from rx_events [OF pre, of demo_run "replicate 65535 0x41"] obtain s1 where
    "receive_events demo_run 1 (replicate 65535 0x41) demo_state = Inr s1"
    "nth2 (uartRxOverflow s1) 1 = 0xFFFF"
    by (auto simp: demo_state_def nth2_def full_buffer_def)
  with step show ?thesis by simp
qed

section \<open>The invariant holds in every state the driver reaches\<close>

text \<open>
  The state at reset satisfies the invariant, initialisation establishes it again, and
  every function and interrupt handler of the driver that returns preserves it (a user
  receive function is assumed to preserve it too). So the well-formed buffers the
  results above speak of are the buffers of every reachable state.
\<close>

lemma word_zero_or_pos: "(w :: u16) = 0 \<or> 0 < w"
  using word_neq_0_conv [of w] by blast

lemma keeps_bufferInit:
  "unat sz \<le> length start \<Longrightarrow>
   buf_ok (bufferInit start sz) \<and> length (storage (bufferInit start sz)) = length start"
  using word_zero_or_pos [of sz] by (simp add: buf_ok_def bufferInit_def)

lemma keeps_bufferAddToEnd:
  assumes "buf_ok b"
  shows "buf_ok (snd (bufferAddToEnd b c)) \<and>
         length (storage (snd (bufferAddToEnd b c))) = length (storage b)"
proof (cases "datalength b < size_b b")
  case True
  with push_aux(1) [OF assms True, of c] show ?thesis
    by (simp add: bufferAddToEnd_def)
next
  case False
  with assms show ?thesis by (simp add: bufferAddToEnd_full)
qed

lemma keeps_bufferGetFromFront:
  assumes "buf_ok b" and "bufferGetFromFront b = Some (c, b1)"
  shows "buf_ok b1 \<and> length (storage b1) = length (storage b)"
proof -
  from assms(2) have dl: "datalength b \<noteq> 0"
    by (auto simp: bufferGetFromFront_def split: if_splits)
  from pop_aux [OF assms(1) dl] assms(2) have "buf_ok b1" by auto
  moreover from assms(2) dl have "storage b1 = storage b"
    by (auto simp: bufferGetFromFront_def)
  ultimately show ?thesis by simp
qed

lemma keeps_bufferFlush:
  "buf_ok b \<Longrightarrow> buf_ok (bufferFlush b) \<and> length (storage (bufferFlush b)) = length (storage b)"
  using word_zero_or_pos [of "size_b b"] by (auto simp: buf_ok_def bufferFlush_def)

lemma keeps_send_loop:
  "buf_ok b \<Longrightarrow>
   buf_ok (send_loop buffer p i nBytes b) \<and>
   length (storage (send_loop buffer p i nBytes b)) = length (storage b)"
proof (induction buffer p i nBytes b rule: send_loop.induct)
  case (1 buffer p i nBytes b)
  show ?case
  proof (cases "i < nBytes - 1")
    case True
    from keeps_bufferAddToEnd [OF "1.prems", of "buffer p"] "1.IH" [OF True]
    show ?thesis
      using True by (subst (1 2) send_loop.simps) simp
  next
    case False
    with "1.prems" show ?thesis
      by (subst (1 2) send_loop.simps) simp
  qed
qed

lemma driver_ok_power_on: "driver_ok cfg (power_on cfg u0 u1)"
  by (simp add: driver_ok_def power_on_def unused_buffer_def buf_ok_def)


lemma driver_ok_frame:
  "uartRxBuffer s1 = uartRxBuffer s \<Longrightarrow> uartTxBuffer s1 = uartTxBuffer s \<Longrightarrow>
   driver_ok cfg s1 = driver_ok cfg s"
  by (simp add: driver_ok_def)

lemma driver_ok_nth2:
  "driver_ok cfg s \<Longrightarrow> nUart < 2 \<Longrightarrow>
   buf_ok (nth2 (uartRxBuffer s) nUart) \<and> buf_ok (nth2 (uartTxBuffer s) nUart)"
  by (auto simp: driver_ok_def nth2_def)

lemma driver_ok_upd_rx:
  "driver_ok cfg s \<Longrightarrow> nUart < 2 \<Longrightarrow> buf_ok b \<Longrightarrow>
   length (storage b) = length (storage (nth2 (uartRxBuffer s) nUart)) \<Longrightarrow>
   driver_ok cfg (s\<lparr>uartRxBuffer := upd2 (uartRxBuffer s) nUart b\<rparr>)"
  by (auto simp: driver_ok_def nth2_def upd2_def)

lemma driver_ok_upd_tx:
  "driver_ok cfg s \<Longrightarrow> nUart < 2 \<Longrightarrow> buf_ok b \<Longrightarrow>
   length (storage b) = length (storage (nth2 (uartTxBuffer s) nUart)) \<Longrightarrow>
   driver_ok cfg (s\<lparr>uartTxBuffer := upd2 (uartTxBuffer s) nUart b\<rparr>)"
  by (auto simp: driver_ok_def nth2_def upd2_def)

lemma driver_ok_uart0InitBuffers: "driver_ok cfg s \<Longrightarrow> driver_ok cfg (uart0InitBuffers cfg s)"
proof -
  assume ok: "driver_ok cfg s"
  let ?s1 = "s\<lparr>uartRxBuffer := upd2 (uartRxBuffer s) 0
       (bufferInit (storage (nth2 (uartRxBuffer s) 0)) (UART0_RX_BUFFER_SIZE cfg))\<rparr>"
  from ok have "unat (UART0_RX_BUFFER_SIZE cfg) \<le> length (storage (nth2 (uartRxBuffer s) 0))"
    by (simp add: driver_ok_def nth2_def)
  from keeps_bufferInit [OF this] ok have ok1: "driver_ok cfg ?s1"
    by (intro driver_ok_upd_rx) simp_all
  then have "unat (UART0_TX_BUFFER_SIZE cfg) \<le> length (storage (nth2 (uartTxBuffer ?s1) 0))"
    by (simp add: driver_ok_def nth2_def)
  from keeps_bufferInit [OF this] ok1 show ?thesis
    unfolding uart0InitBuffers_def Let_def by (intro driver_ok_upd_tx) simp_all
qed

lemma driver_ok_uart1InitBuffers: "driver_ok cfg s \<Longrightarrow> driver_ok cfg (uart1InitBuffers cfg s)"
proof -
  assume ok: "driver_ok cfg s"
  let ?s1 = "s\<lparr>uartRxBuffer := upd2 (uartRxBuffer s) 1
       (bufferInit (storage (nth2 (uartRxBuffer s) 1)) (UART1_RX_BUFFER_SIZE cfg))\<rparr>"
  from ok have "unat (UART1_RX_BUFFER_SIZE cfg) \<le> length (storage (nth2 (uartRxBuffer s) 1))"
    by (simp add: driver_ok_def nth2_def)
  from keeps_bufferInit [OF this] ok have ok1: "driver_ok cfg ?s1"
    by (intro driver_ok_upd_rx) simp_all
  then have "unat (UART1_TX_BUFFER_SIZE cfg) \<le> length (storage (nth2 (uartTxBuffer ?s1) 1))"
    by (simp add: driver_ok_def nth2_def)
  from keeps_bufferInit [OF this] ok1 show ?thesis
    unfolding uart1InitBuffers_def Let_def by (intro driver_ok_upd_tx) simp_all
qed

lemma driver_ok_uartSetBaudRate:
  "uartSetBaudRate cfg nUart baudrate s = Inr s1 \<Longrightarrow> driver_ok cfg' s1 = driver_ok cfg' s"
  by (auto simp: uartSetBaudRate_def Let_def driver_ok_def split: if_splits)

lemma driver_ok_uart0Init:
  "driver_ok cfg s \<Longrightarrow> uart0Init cfg s = Inr s1 \<Longrightarrow> driver_ok cfg s1"
  using driver_ok_uart0InitBuffers [of cfg s]
  by (auto simp: uart0Init_def Let_def driver_ok_def dest!: driver_ok_uartSetBaudRate [of _ _ _ _ _ cfg]
      split: sum.splits)

lemma driver_ok_uart1Init:
  "driver_ok cfg s \<Longrightarrow> uart1Init cfg s = Inr s1 \<Longrightarrow> driver_ok cfg s1"
  using driver_ok_uart1InitBuffers [of cfg s]
  by (auto simp: uart1Init_def Let_def driver_ok_def dest!: driver_ok_uartSetBaudRate [of _ _ _ _ _ cfg]
      split: sum.splits)

lemma driver_ok_uartSendByte:
  "uartSendByte nUart c s = Some (Inr s1) \<Longrightarrow> driver_ok cfg s1 = driver_ok cfg s"
  by (auto simp: uartSendByte_def wait_and_outb_def driver_ok_def split: option.splits if_splits)

lemma driver_ok_uartReceiveByte:
  assumes ok: "driver_ok cfg s" and r: "uartReceiveByte nUart d s = Inr (r, c, s1)"
  shows "driver_ok cfg s1"
proof (cases "s1 = s")
  case True
  with ok show ?thesis by simp
next
  case False
  with r obtain b where n: "nUart < 2"
    and b: "bufferGetFromFront (nth2 (uartRxBuffer s) nUart) = Some (c, b)"
    and s1: "s1 = s\<lparr>uartRxBuffer := upd2 (uartRxBuffer s) nUart b\<rparr>"
    by (auto simp: uartReceiveByte_def split: if_splits option.splits)
  from driver_ok_nth2 [OF ok n] keeps_bufferGetFromFront [OF _ b]
  show ?thesis unfolding s1 using ok n by (intro driver_ok_upd_rx) simp_all
qed

lemma driver_ok_uartFlushReceiveBuffer:
  assumes ok: "driver_ok cfg s" and r: "uartFlushReceiveBuffer nUart s = Inr s1"
  shows "driver_ok cfg s1"
proof -
  from r have n: "nUart < 2"
    and s1: "s1 = s\<lparr>uartRxBuffer :=
               upd2 (uartRxBuffer s) nUart (bufferFlush (nth2 (uartRxBuffer s) nUart))\<rparr>"
    by (auto simp: uartFlushReceiveBuffer_def split: if_splits)
  from driver_ok_nth2 [OF ok n] have "buf_ok (nth2 (uartRxBuffer s) nUart)" by simp
  from keeps_bufferFlush [OF this] show ?thesis
    unfolding s1 using ok n by (intro driver_ok_upd_rx) simp_all
qed

lemma driver_ok_uartAddToTxBuffer:
  assumes ok: "driver_ok cfg s" and r: "uartAddToTxBuffer nUart c s = Inr s1"
  shows "driver_ok cfg s1"
proof -
  from r have n: "nUart < 2"
    and s1: "s1 = s\<lparr>uartTxBuffer :=
               upd2 (uartTxBuffer s) nUart (snd (bufferAddToEnd (nth2 (uartTxBuffer s) nUart) c))\<rparr>"
    by (auto simp: uartAddToTxBuffer_def split: if_splits)
  from driver_ok_nth2 [OF ok n] have "buf_ok (nth2 (uartTxBuffer s) nUart)" by simp
  from keeps_bufferAddToEnd [OF this, of c] show ?thesis
    unfolding s1 using ok n by (intro driver_ok_upd_tx) simp_all
qed

lemma driver_ok_uartSendTxBuffer:
  assumes ok: "driver_ok cfg s" and r: "uartSendTxBuffer nUart s = Some (Inr s1)"
  shows "driver_ok cfg s1"
proof -
  from r obtain c b where n: "nUart < 2"
    and b: "bufferGetFromFront (nth2 (uartTxBuffer s) nUart) = Some (c, b)"
    and send: "uartSendByte nUart c
                 (s\<lparr>uartBufferedTx := upd2 (uartBufferedTx s) nUart 1,
                    uartTxBuffer := upd2 (uartTxBuffer s) nUart b\<rparr>) = Some (Inr s1)"
    by (auto simp: uartSendTxBuffer_def Let_def split: if_splits option.splits)
  from driver_ok_nth2 [OF ok n] have "buf_ok (nth2 (uartTxBuffer s) nUart)" by simp
  from keeps_bufferGetFromFront [OF this b] ok n
  have "driver_ok cfg (s\<lparr>uartTxBuffer := upd2 (uartTxBuffer s) nUart b\<rparr>)"
    by (intro driver_ok_upd_tx) simp_all
  then have "driver_ok cfg (s\<lparr>uartBufferedTx := upd2 (uartBufferedTx s) nUart 1,
                    uartTxBuffer := upd2 (uartTxBuffer s) nUart b\<rparr>)"
    by (simp add: driver_ok_def)
  with driver_ok_uartSendByte [OF send, of cfg] show ?thesis by simp
qed

lemma driver_ok_uartSendBuffer:
  assumes ok: "driver_ok cfg s" and r: "uartSendBuffer nUart buffer nBytes s = Some (Inr (x, s1))"
  shows "driver_ok cfg s1"
proof (cases "s1 = s")
  case True
  with ok show ?thesis by simp
next
  case False
  with r have n: "nUart < 2"
    and send: "uartSendByte nUart (buffer 0)
                 (s\<lparr>uartTxBuffer := upd2 (uartTxBuffer s) nUart
                       (send_loop buffer 1 0 nBytes (nth2 (uartTxBuffer s) nUart)),
                    uartBufferedTx := upd2 (uartBufferedTx s) nUart 1\<rparr>) = Some (Inr s1)"
    by (auto simp: uartSendBuffer_def Let_def split: if_splits option.splits sum.splits)
  from driver_ok_nth2 [OF ok n] have "buf_ok (nth2 (uartTxBuffer s) nUart)" by simp
  from keeps_send_loop [OF this, of buffer 1 0 nBytes] ok n
  have "driver_ok cfg (s\<lparr>uartTxBuffer := upd2 (uartTxBuffer s) nUart
                       (send_loop buffer 1 0 nBytes (nth2 (uartTxBuffer s) nUart))\<rparr>)"
    by (intro driver_ok_upd_tx) simp_all
  then have "driver_ok cfg (s\<lparr>uartTxBuffer := upd2 (uartTxBuffer s) nUart
                       (send_loop buffer 1 0 nBytes (nth2 (uartTxBuffer s) nUart)),
                    uartBufferedTx := upd2 (uartBufferedTx s) nUart 1\<rparr>)"
    by (simp add: driver_ok_def)
  with driver_ok_uartSendByte [OF send, of cfg] show ?thesis by simp
qed

lemma driver_ok_uartTransmitService:
  assumes ok: "driver_ok cfg s" and r: "uartTransmitService nUart s = Inr s1"
  shows "driver_ok cfg s1"
proof -
  from r have n: "nUart < 2" by (auto simp: uartTransmitService_def split: if_splits)
  then have n01: "nUart = 0 \<or> nUart = 1" by (simp add: lt2_cases)
  from driver_ok_nth2 [OF ok n] have bok: "buf_ok (nth2 (uartTxBuffer s) nUart)" by simp
  show ?thesis
  proof (cases "nth2 (uartBufferedTx s) nUart \<noteq> 0 \<and> datalength (nth2 (uartTxBuffer s) nUart) \<noteq> 0")
    case False
    with r n ok show ?thesis
      by (auto simp: uartTransmitService_def driver_ok_def split: if_splits)
  next
    case True
    with r n n01 obtain c b where
      b: "bufferGetFromFront (nth2 (uartTxBuffer s) nUart) = Some (c, b)"
      and s1: "uartTxBuffer s1 = upd2 (uartTxBuffer s) nUart b" "uartRxBuffer s1 = uartRxBuffer s"
      by (auto simp: uartTransmitService_def split: if_splits option.splits)
    from keeps_bufferGetFromFront [OF bok b] ok n
    have "driver_ok cfg (s\<lparr>uartTxBuffer := upd2 (uartTxBuffer s) nUart b\<rparr>)"
      by (intro driver_ok_upd_tx) simp_all
    then show ?thesis using s1 by (simp add: driver_ok_def)
  qed
qed

lemma driver_ok_uartReceiveService:
  assumes run: "\<forall>f c t. driver_ok cfg t \<longrightarrow> driver_ok cfg (run f c t)"
    and ok: "driver_ok cfg s" and r: "uartReceiveService run nUart s = Inr s1"
  shows "driver_ok cfg s1"
proof -
  from r have n: "nUart < 2" by (auto simp: uartReceiveService_def Let_def split: if_splits)
  from driver_ok_nth2 [OF ok n] have bok: "buf_ok (nth2 (uartRxBuffer s) nUart)" by simp
  show ?thesis
  proof (cases "nth2 (UartRxFunc s) nUart \<noteq> 0")
    case True
    with r n run ok show ?thesis
      by (auto simp: uartReceiveService_def Let_def)
  next
    case False
    let ?c = "if nUart \<noteq> 0 then UDR_rx (usart1 s) else UDR_rx (usart0 s)"
    from False r n have s1: "uartTxBuffer s1 = uartTxBuffer s"
      "uartRxBuffer s1 = upd2 (uartRxBuffer s) nUart
         (snd (bufferAddToEnd (nth2 (uartRxBuffer s) nUart) ?c))"
      by (auto simp: uartReceiveService_def Let_def split: prod.splits if_splits)
    from keeps_bufferAddToEnd [OF bok, of ?c] ok n
    have "driver_ok cfg (s\<lparr>uartRxBuffer := upd2 (uartRxBuffer s) nUart
         (snd (bufferAddToEnd (nth2 (uartRxBuffer s) nUart) ?c))\<rparr>)"
      by (intro driver_ok_upd_rx) simp_all
    then show ?thesis using s1 by (simp add: driver_ok_def)
  qed
qed

lemma driver_ok_invariant:
  assumes run: "\<forall>f c t. driver_ok cfg t \<longrightarrow> driver_ok cfg (run f c t)"
    and ok: "driver_ok cfg s"
    and step: "state_after cfg run op s = Some (Inr s1)"
  shows "driver_ok cfg s1"
proof (cases op)
  case Call_uartInit
  with step ok show ?thesis
    by (auto simp: uartInit_def split: sum.splits dest: driver_ok_uart0Init driver_ok_uart1Init)
next
  case Call_uart0Init
  with step ok show ?thesis by (auto dest: driver_ok_uart0Init)
next
  case Call_uart1Init
  with step ok show ?thesis by (auto dest: driver_ok_uart1Init)
next
  case Call_uart0InitBuffers
  with step ok show ?thesis by (auto intro: driver_ok_uart0InitBuffers)
next
  case Call_uart1InitBuffers
  with step ok show ?thesis by (auto intro: driver_ok_uart1InitBuffers)
next
  case (Call_uartSetRxHandler m f)
  with step ok show ?thesis by (auto simp: uartSetRxHandler_def driver_ok_def)
next
  case (Call_uartSetBaudRate m baudrate)
  with step ok show ?thesis by (auto dest: driver_ok_uartSetBaudRate [of _ _ _ _ _ cfg])
next
  case (Call_uartGetRxBuffer m)
  with step ok show ?thesis by auto
next
  case (Call_uartGetTxBuffer m)
  with step ok show ?thesis by auto
next
  case (Call_uartSendByte m c)
  with step ok show ?thesis by (auto dest: driver_ok_uartSendByte [of _ _ _ _ cfg])
next
  case (Call_uart0SendByte c)
  with step ok show ?thesis
    by (auto simp: uart0SendByte_def dest: driver_ok_uartSendByte [of _ _ _ _ cfg])
next
  case (Call_uart1SendByte c)
  with step ok show ?thesis
    by (auto simp: uart1SendByte_def dest: driver_ok_uartSendByte [of _ _ _ _ cfg])
next
  case (Call_uart0GetByte c)
  with step ok show ?thesis
    by (auto simp: drop_result_def uart0GetByte_def split: sum.splits if_splits
        dest: driver_ok_uartReceiveByte)
next
  case (Call_uart1GetByte c)
  with step ok show ?thesis
    by (auto simp: drop_result_def uart1GetByte_def split: sum.splits if_splits
        dest: driver_ok_uartReceiveByte)
next
  case (Call_uartReceiveByte m c)
  with step ok show ?thesis
    by (auto split: sum.splits dest: driver_ok_uartReceiveByte)
next
  case (Call_uartFlushReceiveBuffer m)
  with step ok show ?thesis by (auto dest: driver_ok_uartFlushReceiveBuffer)
next
  case (Call_uartReceiveBufferIsEmpty m)
  with step ok show ?thesis by (auto simp: keep_state_def split: sum.splits)
next
  case (Call_uartTransmitPending m)
  with step ok show ?thesis by (auto simp: keep_state_def split: sum.splits)
next
  case (Call_uartAddToTxBuffer m c)
  with step ok show ?thesis by (auto dest: driver_ok_uartAddToTxBuffer)
next
  case (Call_uart0AddToTxBuffer c)
  with step ok show ?thesis
    by (auto simp: uart0AddToTxBuffer_def dest: driver_ok_uartAddToTxBuffer)
next
  case (Call_uart1AddToTxBuffer c)
  with step ok show ?thesis
    by (auto simp: uart1AddToTxBuffer_def dest: driver_ok_uartAddToTxBuffer)
next
  case (Call_uartSendTxBuffer m)
  with step ok show ?thesis by (auto dest: driver_ok_uartSendTxBuffer)
next
  case (Call_uartSendBuffer m buffer nBytes)
  with step obtain z where z: "uartSendBuffer m buffer nBytes s = Some z" "drop_result z = Inr s1"
    by auto
  from z(2) obtain x where "z = Inr (x, s1)"
    by (cases z) (auto simp: drop_result_def)
  with z(1) ok show ?thesis by (auto dest: driver_ok_uartSendBuffer)
next
  case (Call_uartTransmitService m)
  with step ok show ?thesis by (auto dest: driver_ok_uartTransmitService)
next
  case (Call_uartReceiveService m)
  with step ok run show ?thesis by (auto dest: driver_ok_uartReceiveService)
next
  case Int_SIG_UART0_TRANS
  with step ok show ?thesis
    by (auto simp: SIG_UART0_TRANS_def dest: driver_ok_uartTransmitService)
next
  case Int_SIG_UART1_TRANS
  with step ok show ?thesis
    by (auto simp: SIG_UART1_TRANS_def dest: driver_ok_uartTransmitService)
next
  case Int_SIG_UART0_RECV
  with step ok run show ?thesis
    by (auto simp: SIG_UART0_RECV_def dest: driver_ok_uartReceiveService)
next
  case Int_SIG_UART1_RECV
  with step ok run show ?thesis
    by (auto simp: SIG_UART1_RECV_def dest: driver_ok_uartReceiveService)
qed

end
